theory Spec2Isabelle
  imports Complex_Main "HOL-Library.Log_Nat"
begin

section \<open>Persisted schema (supabase/migrations)\<close>

text \<open>
  The tables of the first migration, one record per row type. A UUID is an opaque
  identifier (the client types it as a string). The columns \<open>created_at\<close> and
  \<open>updated_at\<close> are left out: they are filled from the clock of the store and no
  policy, trigger body or screen computation below reads them. The surrogate keys of
  \<open>profiles\<close> and \<open>user_roles\<close> are left out for the same reason; the key of
  \<open>mt5_accounts\<close> is kept (the admin screen updates by it) under the name
  \<open>row_id\<close>, since \<open>id\<close> is the identity function of HOL.
\<close>

type_synonym uuid = string

datatype app_role = admin | user

record profiles_row =
  profile_user_id :: uuid
  full_name :: string
  telegram_handle :: string

text \<open>
  \<open>initial_deposit\<close> and \<open>current_balance\<close> are nullable \<open>DECIMAL(10,2)\<close>
  columns: \<open>None\<close> is SQL NULL, and an amount is a rational number. A stored amount
  has gone through \<open>numeric_10_2\<close> below, the conversion to the column type that
  every insert and update performs. The two flags are typed \<open>boolean\<close> by the
  client's \<open>MT5Account\<close> interface and default to FALSE in the table.
\<close>

record mt5_account =
  row_id :: uuid
  user_id :: uuid
  account_id :: string
  password :: string
  server :: string
  initial_deposit :: "rat option"
  current_balance :: "rat option"
  profit_target_reached :: bool
  commission_paid :: bool

record user_roles_row =
  role_user_id :: uuid
  role :: app_role

record admin_settings_row =
  settings_id :: uuid
  fbs_partner_link :: "string option"
  usdt_wallet_address :: "string option"
  telegram_bot_username :: "string option"

text \<open>
  The store: the identities of \<open>auth.users\<close> and the four public tables, each a list
  of rows in insertion order.
\<close>

record store =
  auth_users :: "uuid list"
  profiles :: "profiles_row list"
  mt5_accounts :: "mt5_account list"
  user_roles :: "user_roles_row list"
  admin_settings :: "admin_settings_row list"

text \<open>
  What a request can come back with instead of data. \<open>RlsViolation\<close> is the store's
  "new row violates row-level security policy" (SQLSTATE 42501); \<open>NumericOverflow\<close>
  is its "numeric field overflow" (SQLSTATE 22003); \<open>PGRST116\<close> is the
  code the screens test for after \<open>.single()\<close>; \<open>ValidationError\<close> is a form
  rejected by the client before any request is sent.
\<close>

datatype error =
    RlsViolation
  | NotNullViolation
  | UniqueViolation
  | ForeignKeyViolation
  | NumericOverflow
  | PGRST116
  | ValidationError

type_synonym 'a response = "error + 'a"

text \<open>
  \<open>DECIMAL(10,2)\<close>: a value is rounded to two decimals, a tie away from zero, and is
  refused when the rounded value needs more than eight digits before the point, that
  is when its magnitude reaches \<open>10^8\<close>. A NULL stays NULL.
\<close>

definition round_half_away :: "rat \<Rightarrow> int" where
  "round_half_away x = (if 0 \<le> x then \<lfloor>x + 1 / 2\<rfloor> else - \<lfloor>- x + 1 / 2\<rfloor>)"

definition numeric_10_2 :: "rat \<Rightarrow> rat response" where
  "numeric_10_2 x =
     (let cents = round_half_away (x * 100)
      in if 10 ^ 10 \<le> \<bar>cents\<bar> then Inl NumericOverflow else Inr (of_int cents / 100))"

fun numeric_10_2_null :: "rat option \<Rightarrow> rat option response" where
  "numeric_10_2_null None = Inr None"
| "numeric_10_2_null (Some x) = (case numeric_10_2 x of Inl e \<Rightarrow> Inl e | Inr v \<Rightarrow> Inr (Some v))"

section \<open>Role membership\<close>

text \<open>
  \<open>public.has_role(_user_id, _role)\<close>: EXISTS over \<open>user_roles\<close>. The caller's
  identity \<open>auth.uid()\<close> is NULL for an anonymous request, and \<open>user_id = NULL\<close>
  selects no row.
\<close>

fun has_role :: "user_roles_row list \<Rightarrow> uuid option \<Rightarrow> app_role \<Rightarrow> bool" where
  "has_role roles None r = False"
| "has_role roles (Some u) r = list_ex (\<lambda>x. role_user_id x = u \<and> role x = r) roles"

section \<open>Row-level policies\<close>

text \<open>
  A policy expression sees the caller's identity, the \<open>user_roles\<close> table (through
  \<open>has_role\<close>) and the row. The migration writes policies in two shapes:
  \<open>FOR cmd USING (e)\<close> and \<open>FOR INSERT WITH CHECK (e)\<close>. A policy with only a
  USING expression applies that expression to new rows as well; a policy with only
  WITH CHECK has no say over existing rows. All policies are permissive: a command
  passes when at least one applicable policy passes, and with row-level security
  enabled and no applicable policy nothing passes.
\<close>

datatype command = FOR_ALL | FOR_SELECT | FOR_INSERT | FOR_UPDATE | FOR_DELETE

type_synonym 'r policy_expr = "uuid option \<Rightarrow> user_roles_row list \<Rightarrow> 'r \<Rightarrow> bool"

datatype 'r policy =
    Using command "'r policy_expr"
  | WithCheck command "'r policy_expr"

fun policy_cmd :: "'r policy \<Rightarrow> command" where
  "policy_cmd (Using c e) = c"
| "policy_cmd (WithCheck c e) = c"

definition applicable :: "command \<Rightarrow> 'r policy \<Rightarrow> bool" where
  "applicable c p = (policy_cmd p = FOR_ALL \<or> policy_cmd p = c)"

fun using_passes :: "uuid option \<Rightarrow> user_roles_row list \<Rightarrow> 'r \<Rightarrow> 'r policy \<Rightarrow> bool" where
  "using_passes uid roles r (Using c e) = e uid roles r"
| "using_passes uid roles r (WithCheck c e) = False"

fun check_passes :: "uuid option \<Rightarrow> user_roles_row list \<Rightarrow> 'r \<Rightarrow> 'r policy \<Rightarrow> bool" where
  "check_passes uid roles r (Using c e) = e uid roles r"
| "check_passes uid roles r (WithCheck c e) = e uid roles r"

definition using_ok ::
  "'r policy list \<Rightarrow> command \<Rightarrow> uuid option \<Rightarrow> user_roles_row list \<Rightarrow> 'r \<Rightarrow> bool" where
  "using_ok ps c uid roles r = list_ex (\<lambda>p. applicable c p \<and> using_passes uid roles r p) ps"

definition check_ok ::
  "'r policy list \<Rightarrow> command \<Rightarrow> uuid option \<Rightarrow> user_roles_row list \<Rightarrow> 'r \<Rightarrow> bool" where
  "check_ok ps c uid roles r = list_ex (\<lambda>p. applicable c p \<and> check_passes uid roles r p) ps"

text \<open>
  The three row operations the screens issue. A SELECT returns the rows that pass and
  drops the others without a word. An INSERT whose new row fails the check is refused
  with an error. An UPDATE touches the rows that match its filter and pass both the
  SELECT and the UPDATE expressions (its filter reads a column); the others are skipped
  without a word. The new version of a touched row must pass the UPDATE check and stay
  visible to SELECT, or the whole statement is refused.
\<close>

definition rls_select ::
  "'r policy list \<Rightarrow> uuid option \<Rightarrow> user_roles_row list \<Rightarrow> 'r list \<Rightarrow> 'r list response" where
  "rls_select ps uid roles rows = Inr (filter (using_ok ps FOR_SELECT uid roles) rows)"

definition rls_insert ::
  "'r policy list \<Rightarrow> uuid option \<Rightarrow> user_roles_row list \<Rightarrow> 'r list \<Rightarrow> 'r \<Rightarrow> 'r list response" where
  "rls_insert ps uid roles rows new =
     (if check_ok ps FOR_INSERT uid roles new then Inr (rows @ [new]) else Inl RlsViolation)"

definition update_target ::
  "'r policy list \<Rightarrow> uuid option \<Rightarrow> user_roles_row list \<Rightarrow> ('r \<Rightarrow> bool) \<Rightarrow> 'r \<Rightarrow> bool" where
  "update_target ps uid roles matches r =
     (matches r \<and> using_ok ps FOR_SELECT uid roles r \<and> using_ok ps FOR_UPDATE uid roles r)"

definition new_row_ok ::
  "'r policy list \<Rightarrow> uuid option \<Rightarrow> user_roles_row list \<Rightarrow> 'r \<Rightarrow> bool" where
  "new_row_ok ps uid roles r =
     (check_ok ps FOR_UPDATE uid roles r \<and> using_ok ps FOR_SELECT uid roles r)"

definition rls_update ::
  "'r policy list \<Rightarrow> uuid option \<Rightarrow> user_roles_row list \<Rightarrow> 'r list \<Rightarrow>
   ('r \<Rightarrow> bool) \<Rightarrow> ('r \<Rightarrow> 'r) \<Rightarrow> 'r list response" where
  "rls_update ps uid roles rows matches f =
     (if list_ex (\<lambda>r. update_target ps uid roles matches r \<and> \<not> new_row_ok ps uid roles (f r)) rows
      then Inl RlsViolation
      else Inr (map (\<lambda>r. if update_target ps uid roles matches r then f r else r) rows))"

subsection \<open>The policies of the migration\<close>

text \<open>
  \<open>mt5_accounts\<close>: "Admins can manage all MT5 accounts" (FOR ALL USING has_role) and
  "Users can insert their own MT5 account" (FOR INSERT WITH CHECK auth.uid() = user_id).
  The comparison with a NULL \<open>auth.uid()\<close> is not true.
\<close>

definition mt5_accounts_policies :: "mt5_account policy list" where
  "mt5_accounts_policies =
     [Using FOR_ALL (\<lambda>uid roles r. has_role roles uid admin),
      WithCheck FOR_INSERT (\<lambda>uid roles r. uid = Some (user_id r))]"

text \<open>
  \<open>profiles\<close>: own profile for SELECT, INSERT and UPDATE; everything for admins.
\<close>

definition profiles_policies :: "profiles_row policy list" where
  "profiles_policies =
     [Using FOR_SELECT (\<lambda>uid roles r. uid = Some (profile_user_id r)),
      WithCheck FOR_INSERT (\<lambda>uid roles r. uid = Some (profile_user_id r)),
      Using FOR_UPDATE (\<lambda>uid roles r. uid = Some (profile_user_id r)),
      Using FOR_ALL (\<lambda>uid roles r. has_role roles uid admin)]"

definition user_roles_policies :: "user_roles_row policy list" where
  "user_roles_policies = [Using FOR_ALL (\<lambda>uid roles r. has_role roles uid admin)]"

text \<open>
  \<open>admin_settings\<close>: "Admins can manage settings" and "Everyone can view admin
  settings" (FOR SELECT USING (true)).
\<close>

definition admin_settings_policies :: "admin_settings_row policy list" where
  "admin_settings_policies =
     [Using FOR_ALL (\<lambda>uid roles r. has_role roles uid admin),
      Using FOR_SELECT (\<lambda>uid roles r. True)]"

section \<open>Reading Trading Accounts\<close>

text \<open>
  \<open>supabase.from('mt5_accounts').select('*')\<close> as the policy layer answers it for a
  caller, and the Dashboard's \<open>fetchData\<close> query, which adds
  \<open>.eq('user_id', user?.id)\<close> and throws when the response carries an error.
\<close>

definition select_mt5_accounts :: "store \<Rightarrow> uuid option \<Rightarrow> mt5_account list response" where
  "select_mt5_accounts s uid = rls_select mt5_accounts_policies uid (user_roles s) (mt5_accounts s)"

definition Dashboard_fetch_mt5 :: "store \<Rightarrow> uuid option \<Rightarrow> mt5_account list response" where
  "Dashboard_fetch_mt5 s uid =
     (case select_mt5_accounts s uid of
        Inl e \<Rightarrow> Inl e
      | Inr rows \<Rightarrow> Inr (filter (\<lambda>r. Some (user_id r) = uid) rows))"

section \<open>Registration (handle_new_user, on_auth_user_created)\<close>

text \<open>
  A row of \<open>auth.users\<close> as the trigger sees it: the identity and the registration
  metadata, a JSON object or NULL. \<open>json_text\<close> is the operator \<open>->>\<close>: NULL when
  the column is NULL, the key is missing or the value is JSON null, the value's text
  otherwise. \<open>COALESCE\<close> then replaces NULL by its second argument.
\<close>

datatype json = JNull | JText string

type_synonym jsonb = "string \<rightharpoonup> json"

record auth_user =
  auth_id :: uuid
  raw_user_meta_data :: "jsonb option"

fun json_text :: "jsonb option \<Rightarrow> string \<Rightarrow> string option" where
  "json_text None k = None"
| "json_text (Some obj) k =
     (case obj k of None \<Rightarrow> None | Some JNull \<Rightarrow> None | Some (JText t) \<Rightarrow> Some t)"

fun COALESCE :: "string option \<Rightarrow> string \<Rightarrow> string" where
  "COALESCE None d = d"
| "COALESCE (Some v) d = v"

text \<open>
  The two inserts of the trigger body run as the function's owner (SECURITY DEFINER), so
  no policy applies to them; the table constraints do: \<open>profiles.user_id\<close> is UNIQUE,
  \<open>user_roles\<close> is UNIQUE on (user_id, role), and both reference \<open>auth.users\<close>.
\<close>

definition insert_profile :: "store \<Rightarrow> profiles_row \<Rightarrow> store response" where
  "insert_profile s p =
     (if list_ex (\<lambda>q. profile_user_id q = profile_user_id p) (profiles s) then Inl UniqueViolation
      else if profile_user_id p \<notin> set (auth_users s) then Inl ForeignKeyViolation
      else Inr (s\<lparr>profiles := profiles s @ [p]\<rparr>))"

definition insert_user_role :: "store \<Rightarrow> user_roles_row \<Rightarrow> store response" where
  "insert_user_role s r =
     (if list_ex (\<lambda>q. role_user_id q = role_user_id r \<and> role q = role r) (user_roles s)
      then Inl UniqueViolation
      else if role_user_id r \<notin> set (auth_users s) then Inl ForeignKeyViolation
      else Inr (s\<lparr>user_roles := user_roles s @ [r]\<rparr>))"

text \<open>
  The trigger body: the profile row of its first INSERT (\<open>new_profile\<close>), then the
  role row of its second.
\<close>

definition new_profile :: "auth_user \<Rightarrow> profiles_row" where
  "new_profile NEW =
     \<lparr>profile_user_id = auth_id NEW,
      full_name = COALESCE (json_text (raw_user_meta_data NEW) ''full_name'') [],
      telegram_handle = COALESCE (json_text (raw_user_meta_data NEW) ''telegram_handle'') []\<rparr>"

definition handle_new_user :: "store \<Rightarrow> auth_user \<Rightarrow> store response" where
  "handle_new_user s NEW =
     (case insert_profile s (new_profile NEW) of
        Inl e \<Rightarrow> Inl e
      | Inr s1 \<Rightarrow> insert_user_role s1 \<lparr>role_user_id = auth_id NEW, role = user\<rparr>)"

text \<open>
  The insert of an identity with its AFTER INSERT ... FOR EACH ROW trigger: the row goes
  in, the trigger body runs once on it, and an error of the body is an error of the
  insert, which then leaves no trace in the store.
\<close>

definition insert_auth_user :: "store \<Rightarrow> auth_user \<Rightarrow> store response" where
  "insert_auth_user s NEW =
     (if auth_id NEW \<in> set (auth_users s) then Inl UniqueViolation
      else handle_new_user (s\<lparr>auth_users := auth_users s @ [auth_id NEW]\<rparr>) NEW)"

text \<open>
  \<open>supabase.auth.signUp\<close> of the sign-up form: the identity provider picks the new
  identity and stores the form's name and handle as the metadata.
\<close>

definition signUp :: "store \<Rightarrow> uuid \<Rightarrow> string \<Rightarrow> string \<Rightarrow> store response" where
  "signUp s new_id fullName telegramHandle =
     insert_auth_user s
       \<lparr>auth_id = new_id,
        raw_user_meta_data =
          Some [''full_name'' \<mapsto> JText fullName, ''telegram_handle'' \<mapsto> JText telegramHandle]\<rparr>"

text \<open>The state the registration is to keep: references resolve, and every identity has
  exactly one profile and at least one role.\<close>

definition references_ok :: "store \<Rightarrow> bool" where
  "references_ok s =
     (list_all (\<lambda>p. profile_user_id p \<in> set (auth_users s)) (profiles s) \<and>
      list_all (\<lambda>r. role_user_id r \<in> set (auth_users s)) (user_roles s))"

definition profiles_of :: "store \<Rightarrow> uuid \<Rightarrow> profiles_row list" where
  "profiles_of s u = filter (\<lambda>p. profile_user_id p = u) (profiles s)"

definition roles_of :: "store \<Rightarrow> uuid \<Rightarrow> user_roles_row list" where
  "roles_of s u = filter (\<lambda>r. role_user_id r = u) (user_roles s)"

definition identity_complete :: "store \<Rightarrow> uuid \<Rightarrow> bool" where
  "identity_complete s u = (length (profiles_of s u) = 1 \<and> roles_of s u \<noteq> [])"

section \<open>Submitting a Trading Account (MT5AccountForm.handleSubmit)\<close>

text \<open>
  The body of an insert request: \<open>user_id\<close> is \<open>user?.id\<close>, absent when nobody is
  signed in; the flags are absent from the form's request and then take the column
  default FALSE.
\<close>

record mt5_insert =
  ins_user_id :: "uuid option"
  ins_account_id :: string
  ins_password :: string
  ins_server :: string
  ins_initial_deposit :: "rat option"
  ins_current_balance :: "rat option"
  ins_profit_target_reached :: "bool option"
  ins_commission_paid :: "bool option"

fun column_default :: "bool option \<Rightarrow> bool" where
  "column_default None = False"
| "column_default (Some b) = b"

definition new_mt5_row :: "uuid \<Rightarrow> uuid \<Rightarrow> mt5_insert \<Rightarrow> mt5_account" where
  "new_mt5_row fresh owner p =
     \<lparr>row_id = fresh, user_id = owner, account_id = ins_account_id p,
      password = ins_password p, server = ins_server p,
      initial_deposit = ins_initial_deposit p, current_balance = ins_current_balance p,
      profit_target_reached = column_default (ins_profit_target_reached p),
      commission_paid = column_default (ins_commission_paid p)\<rparr>"

text \<open>
  The insert into \<open>mt5_accounts\<close>. \<open>fresh\<close> is the key that \<open>gen_random_uuid()\<close>
  draws. The request body is first converted to the column types (\<open>cast_insert\<close>: the
  two amounts to \<open>DECIMAL(10,2)\<close>), then the policy check, then NOT NULL, the primary
  key and the reference to \<open>auth.users\<close>. A row without owner passes the admin policy
  only (the comparison of the second policy with NULL is not true).
\<close>

definition cast_insert :: "mt5_insert \<Rightarrow> mt5_insert response" where
  "cast_insert p =
     (case numeric_10_2_null (ins_initial_deposit p) of
        Inl e \<Rightarrow> Inl e
      | Inr dep \<Rightarrow>
          (case numeric_10_2_null (ins_current_balance p) of
             Inl e \<Rightarrow> Inl e
           | Inr bal \<Rightarrow> Inr (p\<lparr>ins_initial_deposit := dep, ins_current_balance := bal\<rparr>)))"

definition insert_mt5_account :: "store \<Rightarrow> uuid option \<Rightarrow> uuid \<Rightarrow> mt5_insert \<Rightarrow> store response" where
  "insert_mt5_account s uid fresh body =
     (case cast_insert body of
        Inl e \<Rightarrow> Inl e
      | Inr p \<Rightarrow>
          (case ins_user_id p of
             None \<Rightarrow>
               (if has_role (user_roles s) uid admin then Inl NotNullViolation else Inl RlsViolation)
           | Some owner \<Rightarrow>
               (case rls_insert mt5_accounts_policies uid (user_roles s) (mt5_accounts s)
                       (new_mt5_row fresh owner p) of
                  Inl e \<Rightarrow> Inl e
                | Inr rows \<Rightarrow>
                    if list_ex (\<lambda>r. row_id r = fresh) (mt5_accounts s) then Inl UniqueViolation
                    else if owner \<notin> set (auth_users s) then Inl ForeignKeyViolation
                    else Inr (s\<lparr>mt5_accounts := rows\<rparr>))))"

record formData =
  accountId :: string
  form_password :: string
  form_server :: string
  initialDeposit :: string

text \<open>
  \<open>handleSubmit\<close>: an empty field or a deposit that does not parse to a positive
  number stops at the form; otherwise one insert, with the deposit as both
  \<open>initial_deposit\<close> and \<open>current_balance\<close>. \<open>parseFloat\<close> is the runtime's and
  is a parameter: it gives the number as the request body then prints it, a decimal, and
  \<open>None\<close> is its NaN.
\<close>

definition handleSubmit ::
  "(string \<Rightarrow> rat option) \<Rightarrow> store \<Rightarrow> uuid option \<Rightarrow> uuid \<Rightarrow> formData \<Rightarrow> store response" where
  "handleSubmit parseFloat s usr fresh fd =
     (if accountId fd = [] \<or> form_password fd = [] \<or> form_server fd = [] \<or> initialDeposit fd = []
      then Inl ValidationError
      else (case parseFloat (initialDeposit fd) of
              None \<Rightarrow> Inl ValidationError
            | Some dep \<Rightarrow>
                if dep \<le> 0 then Inl ValidationError
                else insert_mt5_account s usr fresh
                       \<lparr>ins_user_id = usr, ins_account_id = accountId fd,
                        ins_password = form_password fd, ins_server = form_server fd,
                        ins_initial_deposit = Some dep, ins_current_balance = Some dep,
                        ins_profit_target_reached = None, ins_commission_paid = None\<rparr>))"

section \<open>The admin screen's updates (Admin.updateMT5Account)\<close>

text \<open>
  \<open>updates\<close> is a \<open>Partial<MT5Account>\<close>; the screen sends one of three fields, so
  the record has those three, each present or absent.
\<close>

record mt5_updates =
  upd_current_balance :: "rat option"
  upd_profit_target_reached :: "bool option"
  upd_commission_paid :: "bool option"

definition apply_updates :: "mt5_updates \<Rightarrow> mt5_account \<Rightarrow> mt5_account" where
  "apply_updates u r =
     r\<lparr>current_balance := (case upd_current_balance u of None \<Rightarrow> current_balance r | Some v \<Rightarrow> Some v),
       profit_target_reached := (case upd_profit_target_reached u of None \<Rightarrow> profit_target_reached r | Some b \<Rightarrow> b),
       commission_paid := (case upd_commission_paid u of None \<Rightarrow> commission_paid r | Some b \<Rightarrow> b)\<rparr>"

text \<open>
  As for an insert, the request body is converted to the column types before any row is
  addressed: a balance that does not fit \<open>DECIMAL(10,2)\<close> is refused whoever asks,
  and one that fits is stored rounded.
\<close>

definition cast_updates :: "mt5_updates \<Rightarrow> mt5_updates response" where
  "cast_updates u =
     (case numeric_10_2_null (upd_current_balance u) of
        Inl e \<Rightarrow> Inl e
      | Inr bal \<Rightarrow> Inr (u\<lparr>upd_current_balance := bal\<rparr>))"

definition updateMT5Account :: "store \<Rightarrow> uuid option \<Rightarrow> uuid \<Rightarrow> mt5_updates \<Rightarrow> store response" where
  "updateMT5Account s uid acc updates =
     (case cast_updates updates of
        Inl e \<Rightarrow> Inl e
      | Inr u \<Rightarrow>
          (case rls_update mt5_accounts_policies uid (user_roles s) (mt5_accounts s)
                  (\<lambda>r. row_id r = acc) (apply_updates u) of
             Inl e \<Rightarrow> Inl e
           | Inr rows \<Rightarrow> Inr (s\<lparr>mt5_accounts := rows\<rparr>)))"

text \<open>The three inputs of an account card: the balance field
  (\<open>parseFloat(e.target.value) || 0\<close>) and the two checkboxes.\<close>

fun or_zero :: "rat option \<Rightarrow> rat" where
  "or_zero None = 0"
| "or_zero (Some v) = v"

definition balance_onChange ::
  "(string \<Rightarrow> rat option) \<Rightarrow> store \<Rightarrow> uuid option \<Rightarrow> uuid \<Rightarrow> string \<Rightarrow> store response" where
  "balance_onChange parseFloat s uid acc text =
     updateMT5Account s uid acc
       \<lparr>upd_current_balance = Some (or_zero (parseFloat text)),
        upd_profit_target_reached = None, upd_commission_paid = None\<rparr>"

definition profit_target_onChange :: "store \<Rightarrow> uuid option \<Rightarrow> uuid \<Rightarrow> bool \<Rightarrow> store response" where
  "profit_target_onChange s uid acc checked =
     updateMT5Account s uid acc
       \<lparr>upd_current_balance = None, upd_profit_target_reached = Some checked,
        upd_commission_paid = None\<rparr>"

definition commission_paid_onChange :: "store \<Rightarrow> uuid option \<Rightarrow> uuid \<Rightarrow> bool \<Rightarrow> store response" where
  "commission_paid_onChange s uid acc checked =
     updateMT5Account s uid acc
       \<lparr>upd_current_balance = None, upd_profit_target_reached = None,
        upd_commission_paid = Some checked\<rparr>"

section \<open>Sequences of operations\<close>

text \<open>
  The operations of the screens that write to the store, each with the identity of the
  session that issues it. A request that comes back with an error changes nothing.
\<close>

datatype event =
    SignUp uuid string string
  | SubmitAccount "uuid option" uuid formData
  | BalanceChange "uuid option" uuid string
  | ProfitTargetChange "uuid option" uuid bool
  | CommissionPaidChange "uuid option" uuid bool

fun request :: "(string \<Rightarrow> rat option) \<Rightarrow> store \<Rightarrow> event \<Rightarrow> store response" where
  "request pf s (SignUp new_id fullName handle) = signUp s new_id fullName handle"
| "request pf s (SubmitAccount usr fresh fd) = handleSubmit pf s usr fresh fd"
| "request pf s (BalanceChange uid acc text) = balance_onChange pf s uid acc text"
| "request pf s (ProfitTargetChange uid acc checked) = profit_target_onChange s uid acc checked"
| "request pf s (CommissionPaidChange uid acc checked) = commission_paid_onChange s uid acc checked"

definition step :: "(string \<Rightarrow> rat option) \<Rightarrow> store \<Rightarrow> event \<Rightarrow> store" where
  "step pf s ev = (case request pf s ev of Inl e \<Rightarrow> s | Inr s' \<Rightarrow> s')"

fun run :: "(string \<Rightarrow> rat option) \<Rightarrow> store \<Rightarrow> event list \<Rightarrow> store" where
  "run pf s [] = s"
| "run pf s (ev # evs) = run pf (step pf s ev) evs"

section \<open>Numbers of the screens' runtime\<close>

text \<open>
  The screens compute with JavaScript numbers, IEEE 754 double-precision values: the
  rationals \<open>m * 2^e\<close> with \<open>\<bar>m\<bar> < 2^53\<close> and \<open>-1074 \<le> e \<le> 971\<close>, the two
  infinities and NaN. The two zeros are one value here, as no operation below tells them
  apart.

  \<open>round64\<close> rounds a rational to the nearest such value, a tie to the one with the
  even \<open>m\<close>, as if the exponent had no upper bound: \<open>expo\<close> is the exponent of the
  leading bit, \<open>ulp\<close> the spacing of the values around \<open>x\<close> (that of the subnormal
  values below \<open>2^-1022\<close>). \<open>binary64\<close> then turns a result of magnitude \<open>2^1024\<close>
  or more into an infinity. This is the result of every arithmetic operation on finite
  operands, and also the number that a decimal of a response reads as.
\<close>

datatype number = Num rat | Infinity | NegInfinity | NaN

definition expo :: "rat \<Rightarrow> int" where
  "expo x =
     (let (a, b) = quotient_of \<bar>x\<bar>; e0 = bitlen a - bitlen b
      in if 2 powi e0 \<le> \<bar>x\<bar> then e0 else e0 - 1)"

definition round_half_even :: "rat \<Rightarrow> int" where
  "round_half_even y =
     (let f = \<lfloor>y\<rfloor>; d = y - of_int f
      in if d < 1 / 2 then f else if 1 / 2 < d then f + 1 else if even f then f else f + 1)"

definition ulp :: "rat \<Rightarrow> rat" where
  "ulp x = 2 powi (max (expo x) (- 1022) - 52)"

definition round64 :: "rat \<Rightarrow> rat" where
  "round64 x = (if x = 0 then 0 else of_int (round_half_even (x / ulp x)) * ulp x)"

definition binary64 :: "rat \<Rightarrow> number" where
  "binary64 x =
     (let r = round64 x
      in if 2 ^ 1024 \<le> r then Infinity
         else if r \<le> - (2 ^ 1024) then NegInfinity
         else Num r)"

text \<open>
  The operators \<open>+\<close> and \<open>-\<close> and \<open>Math.max\<close> of two arguments. NaN goes through
  all of them, and the sum of the two infinities is NaN.
\<close>

fun add_number :: "number \<Rightarrow> number \<Rightarrow> number" where
  "add_number NaN y = NaN"
| "add_number x NaN = NaN"
| "add_number Infinity NegInfinity = NaN"
| "add_number NegInfinity Infinity = NaN"
| "add_number Infinity y = Infinity"
| "add_number x Infinity = Infinity"
| "add_number NegInfinity y = NegInfinity"
| "add_number x NegInfinity = NegInfinity"
| "add_number (Num a) (Num b) = binary64 (a + b)"

fun negate :: "number \<Rightarrow> number" where
  "negate (Num a) = Num (- a)"
| "negate Infinity = NegInfinity"
| "negate NegInfinity = Infinity"
| "negate NaN = NaN"

definition sub_number :: "number \<Rightarrow> number \<Rightarrow> number" where
  "sub_number x y = add_number x (negate y)"

fun max_number :: "number \<Rightarrow> number \<Rightarrow> number" where
  "max_number NaN y = NaN"
| "max_number x NaN = NaN"
| "max_number Infinity y = Infinity"
| "max_number x Infinity = Infinity"
| "max_number NegInfinity y = y"
| "max_number x NegInfinity = x"
| "max_number (Num a) (Num b) = Num (max a b)"

text \<open>A number that is not negative and not NaN; and a number that is a value of the
  format, which every result of \<open>binary64\<close> is.\<close>

fun nonneg_number :: "number \<Rightarrow> bool" where
  "nonneg_number (Num r) = (0 \<le> r)"
| "nonneg_number Infinity = True"
| "nonneg_number n = False"

fun is_double :: "number \<Rightarrow> bool" where
  "is_double (Num r) = (binary64 r = Num r)"
| "is_double n = True"

section \<open>Dashboard\<close>

text \<open>
  The badge of an account card, the Total Profit over the fetched accounts, and the
  settings query \<open>.select('usdt_wallet_address').single()\<close>, which answers PGRST116
  unless exactly one row comes back. A read is a request like any other: it is modelled
  with the store it leaves behind.
\<close>

definition account_badge :: "mt5_account \<Rightarrow> string option" where
  "account_badge a =
     (if profit_target_reached a
      then Some (if commission_paid a then ''Commission Paid'' else ''Commission Due'')
      else None)"

text \<open>
  The Total Profit. An amount of a fetched account is the number that the decimal of the
  response reads as, or null; \<open>x || 0\<close> gives 0 for null (and for 0). The reduce starts
  from 0 and adds, account by account, \<open>Math.max(0, profit)\<close>. \<open>account_gain\<close> names
  what one account adds. The card prints the number with \<open>toLocaleString()\<close>, whose
  digits depend on the locale of the browser; \<open>totalProfit\<close> is the number printed.
\<close>

fun number_or_zero :: "rat option \<Rightarrow> number" where
  "number_or_zero None = Num 0"
| "number_or_zero (Some v) = binary64 v"

definition totalProfit :: "mt5_account list \<Rightarrow> number" where
  "totalProfit mt5Accounts =
     foldl (\<lambda>sum a. let profit = sub_number (number_or_zero (current_balance a))
                                             (number_or_zero (initial_deposit a))
                     in add_number sum (max_number (Num 0) profit)) (Num 0) mt5Accounts"

definition account_gain :: "mt5_account \<Rightarrow> number" where
  "account_gain a =
     max_number (Num 0)
       (sub_number (number_or_zero (current_balance a)) (number_or_zero (initial_deposit a)))"

text \<open>An amount as the column holds it: NULL, or a value that the conversion to
  \<open>DECIMAL(10,2)\<close> leaves as it is.\<close>

definition stored_amount :: "rat option \<Rightarrow> bool" where
  "stored_amount v = (numeric_10_2_null v = Inr v)"

definition stored_amounts :: "mt5_account \<Rightarrow> bool" where
  "stored_amounts a = (stored_amount (initial_deposit a) \<and> stored_amount (current_balance a))"


fun single :: "'a list \<Rightarrow> 'a response" where
  "single [x] = Inr x"
| "single xs = Inl PGRST116"

definition select_admin_settings ::
  "store \<Rightarrow> uuid option \<Rightarrow> admin_settings_row list response \<times> store" where
  "select_admin_settings s uid =
     (rls_select admin_settings_policies uid (user_roles s) (admin_settings s), s)"

definition Dashboard_fetch_settings :: "store \<Rightarrow> uuid option \<Rightarrow> string option response \<times> store" where
  "Dashboard_fetch_settings s uid =
     (case select_admin_settings s uid of
        (Inl e, s') \<Rightarrow> (Inl e, s')
      | (Inr rows, s') \<Rightarrow> (single (map usdt_wallet_address rows), s'))"

section \<open>The commission milestone over sequences of operations\<close>

text \<open>
  \<open>target_latched\<close>: the account exists and its \<open>profit_target_reached\<close> is set.
  \<open>resets\<close> singles out the one operation that clears the flag: the admin screen's
  "Profit Target Reached" checkbox, un-checked on that account by a caller that holds the
  admin role. \<open>no_reset\<close> says that a sequence, run from a store, never gets to such an
  operation.
\<close>

definition target_latched :: "store \<Rightarrow> uuid \<Rightarrow> bool" where
  "target_latched s acc =
     (list_ex (\<lambda>r. row_id r = acc) (mt5_accounts s) \<and>
      list_all (\<lambda>r. row_id r = acc \<longrightarrow> profit_target_reached r) (mt5_accounts s))"

fun resets :: "store \<Rightarrow> uuid \<Rightarrow> event \<Rightarrow> bool" where
  "resets s acc (ProfitTargetChange uid a checked) =
     (a = acc \<and> \<not> checked \<and> has_role (user_roles s) uid admin)"
| "resets s acc ev = False"

fun no_reset :: "(string \<Rightarrow> rat option) \<Rightarrow> store \<Rightarrow> uuid \<Rightarrow> event list \<Rightarrow> bool" where
  "no_reset pf s acc [] = True"
| "no_reset pf s acc (ev # evs) = (\<not> resets s acc ev \<and> no_reset pf (step pf s ev) acc evs)"

text \<open>
  \<open>commission_rule\<close>: no account has \<open>commission_paid\<close> without
  \<open>profit_target_reached\<close>. \<open>breaks_rule\<close> singles out the two operations that
  lead out of it, both by a caller that holds the admin role: un-checking "Profit Target
  Reached" on an account whose commission is paid, and checking "Commission Paid" on an
  account whose target is not reached. \<open>keeps_rule\<close> says that a sequence, run from a
  store, never gets to one of them.
\<close>

definition commission_rule :: "store \<Rightarrow> bool" where
  "commission_rule s =
     list_all (\<lambda>r. commission_paid r \<longrightarrow> profit_target_reached r) (mt5_accounts s)"

fun breaks_rule :: "store \<Rightarrow> event \<Rightarrow> bool" where
  "breaks_rule s (ProfitTargetChange uid acc checked) =
     (\<not> checked \<and> has_role (user_roles s) uid admin \<and>
      list_ex (\<lambda>r. row_id r = acc \<and> commission_paid r) (mt5_accounts s))"
| "breaks_rule s (CommissionPaidChange uid acc checked) =
     (checked \<and> has_role (user_roles s) uid admin \<and>
      list_ex (\<lambda>r. row_id r = acc \<and> \<not> profit_target_reached r) (mt5_accounts s))"
| "breaks_rule s ev = False"

fun keeps_rule :: "(string \<Rightarrow> rat option) \<Rightarrow> store \<Rightarrow> event list \<Rightarrow> bool" where
  "keeps_rule pf s [] = True"
| "keeps_rule pf s (ev # evs) = (\<not> breaks_rule s ev \<and> keeps_rule pf (step pf s ev) evs)"

section \<open>A store to run the operations on\<close>

text \<open>
  Two users with one Trading Account each, and an administrator; the settings row is the
  one the migration inserts.
\<close>

definition demo_roles :: "user_roles_row list" where
  "demo_roles =
     [\<lparr>role_user_id = ''alice'', role = user\<rparr>,
      \<lparr>role_user_id = ''bob'', role = user\<rparr>,
      \<lparr>role_user_id = ''root'', role = user\<rparr>,
      \<lparr>role_user_id = ''root'', role = admin\<rparr>]"

definition acct_alice :: mt5_account where
  "acct_alice =
     \<lparr>row_id = ''acc-1'', user_id = ''alice'', account_id = ''123'', password = ''pw'',
      server = ''Demo'', initial_deposit = Some 1000, current_balance = Some 1000,
      profit_target_reached = False, commission_paid = False\<rparr>"

definition acct_bob :: mt5_account where
  "acct_bob =
     \<lparr>row_id = ''acc-2'', user_id = ''bob'', account_id = ''456'', password = ''pw2'',
      server = ''Real'', initial_deposit = Some 500, current_balance = Some 400,
      profit_target_reached = False, commission_paid = False\<rparr>"

text \<open>An account of alice's with a deposit of ten cents and a balance of thirty.\<close>

definition acct_cents :: mt5_account where
  "acct_cents = acct_alice\<lparr>initial_deposit := Some (1 / 10), current_balance := Some (3 / 10)\<rparr>"

definition demo_settings :: admin_settings_row where
  "demo_settings =
     \<lparr>settings_id = ''set-1'', fbs_partner_link = Some ''https://fbs.com/partner-link'',
      usdt_wallet_address = Some ''TBD_USDT_ADDRESS'',
      telegram_bot_username = Some ''your_telegram_bot''\<rparr>"

definition demo_store :: store where
  "demo_store =
     \<lparr>auth_users = [''alice'', ''bob'', ''root''],
      profiles =
        [\<lparr>profile_user_id = ''alice'', full_name = ''Alice'', telegram_handle = ''@alice''\<rparr>,
         \<lparr>profile_user_id = ''bob'', full_name = ''Bob'', telegram_handle = ''@bob''\<rparr>,
         \<lparr>profile_user_id = ''root'', full_name = ''Root'', telegram_handle = ''@root''\<rparr>],
      mt5_accounts = [acct_alice, acct_bob],
      user_roles = demo_roles,
      admin_settings = [demo_settings]\<rparr>"

text \<open>A request body that sets all three protected fields, one whose balance is a
  digit too long for the column, and an account that names bob as owner.\<close>

definition balance_to_5000 :: mt5_updates where
  "balance_to_5000 =
     \<lparr>upd_current_balance = Some 5000, upd_profit_target_reached = Some True,
      upd_commission_paid = Some True\<rparr>"

definition balance_too_large :: mt5_updates where
  "balance_too_large =
     \<lparr>upd_current_balance = Some 100000000, upd_profit_target_reached = None,
      upd_commission_paid = None\<rparr>"

definition acct_mallory :: mt5_account where
  "acct_mallory =
     \<lparr>row_id = ''acc-3'', user_id = ''bob'', account_id = ''789'', password = ''pw3'',
      server = ''Demo'', initial_deposit = Some 10, current_balance = Some 10,
      profit_target_reached = False, commission_paid = False\<rparr>"

text \<open>The registrations of the scenario: Jane with both fields, and an identity whose
  metadata column is NULL.\<close>

definition jane :: auth_user where
  "jane =
     \<lparr>auth_id = ''jane'',
      raw_user_meta_data =
        Some [''full_name'' \<mapsto> JText ''Jane'', ''telegram_handle'' \<mapsto> JText ''@jane'']\<rparr>"

definition nameless :: auth_user where
  "nameless = \<lparr>auth_id = ''carol'', raw_user_meta_data = None\<rparr>"

text \<open>The form of the scenario, the account it creates for alice under the key
  \<open>acc-9\<close>, and a \<open>parseFloat\<close> that knows the amounts of the examples.\<close>

definition form_123 :: formData where
  "form_123 =
     \<lparr>accountId = ''123'', form_password = ''secret'', form_server = ''Demo'',
      initialDeposit = ''1000''\<rparr>"


definition demo_parseFloat :: "string \<Rightarrow> rat option" where
  "demo_parseFloat t =
     (if t = ''1000'' then Some 1000 else if t = ''2000'' then Some 2000
      else if t = ''100000000'' then Some 100000000 else None)"




definition scenario_due :: "event list" where
  "scenario_due =
     [SubmitAccount (Some ''alice'') ''acc-9'' form_123,
      BalanceChange (Some ''root'') ''acc-9'' ''2000'',
      ProfitTargetChange (Some ''root'') ''acc-9'' True]"

text \<open>The example store after root has set the target flag of alice's account.\<close>

definition demo_latched :: store where
  "demo_latched =
     demo_store\<lparr>mt5_accounts := [acct_alice\<lparr>profit_target_reached := True\<rparr>, acct_bob]\<rparr>"

text \<open>A sequence on that store in which nobody with the admin role un-checks the target
  of \<open>acc-1\<close>: alice submits an account and tries the un-checking herself, root moves
  the balance and marks the commission paid, and Jane registers.\<close>

definition demo_events :: "event list" where
  "demo_events =
     [SubmitAccount (Some ''alice'') ''acc-9'' form_123,
      BalanceChange (Some ''root'') ''acc-1'' ''2000'',
      ProfitTargetChange (Some ''alice'') ''acc-1'' False,
      CommissionPaidChange (Some ''root'') ''acc-1'' True,
      SignUp ''jane'' ''Jane'' ''@jane'']"

section \<open>Verified properties\<close>

subsection \<open>The policies of mt5_accounts, evaluated\<close>

lemma mt5_using_select [simp]:
  "using_ok mt5_accounts_policies FOR_SELECT uid roles r = has_role roles uid admin"
  by (simp add: using_ok_def mt5_accounts_policies_def applicable_def)

lemma mt5_using_update [simp]:
  "using_ok mt5_accounts_policies FOR_UPDATE uid roles r = has_role roles uid admin"
  by (simp add: using_ok_def mt5_accounts_policies_def applicable_def)

lemma mt5_check_update [simp]:
  "check_ok mt5_accounts_policies FOR_UPDATE uid roles r = has_role roles uid admin"
  by (simp add: check_ok_def mt5_accounts_policies_def applicable_def)

lemma mt5_check_insert [simp]:
  "check_ok mt5_accounts_policies FOR_INSERT uid roles r =
     (has_role roles uid admin \<or> uid = Some (user_id r))"
  by (simp add: check_ok_def mt5_accounts_policies_def applicable_def)

lemma demo_alice_not_admin: "\<not> has_role (user_roles demo_store) (Some ''alice'') admin"
  by (simp add: demo_store_def demo_roles_def)

lemma demo_root_admin: "has_role (user_roles demo_store) (Some ''root'') admin"
  by (simp add: demo_store_def demo_roles_def)

subsection \<open>Reading Trading Accounts\<close>

text \<open>
  No SELECT policy of \<open>mt5_accounts\<close> names the owner, so a caller without the
  admin role is shown no row at all, its own included.
\<close>

lemma select_mt5_accounts_non_admin_empty:
  "\<not> has_role (user_roles s) uid admin \<Longrightarrow> select_mt5_accounts s uid = Inr []"
  by (simp add: select_mt5_accounts_def rls_select_def)

text \<open>
  The Dashboard's own query narrows the answer to the caller's rows, so for a caller
  without the admin role it comes back empty, whatever that caller has submitted.
\<close>

lemma Dashboard_fetch_mt5_own_rows:
  "\<exists>rows. Dashboard_fetch_mt5 s uid = Inr rows \<and> list_all (\<lambda>r. Some (user_id r) = uid) rows"
  by (simp add: Dashboard_fetch_mt5_def select_mt5_accounts_def rls_select_def list_all_iff)

lemma Dashboard_fetch_mt5_non_admin_empty:
  "\<not> has_role (user_roles s) uid admin \<Longrightarrow> Dashboard_fetch_mt5 s uid = Inr []"
  by (simp add: Dashboard_fetch_mt5_def select_mt5_accounts_non_admin_empty)

lemma select_user_roles_admin_only:
  "rls_select user_roles_policies uid roles rows =
     Inr (if has_role roles uid admin then rows else [])"
  by (simp add: rls_select_def using_ok_def user_roles_policies_def applicable_def)

text \<open>
  C1. Under the policy layer, a SELECT on \<open>mt5_accounts\<close> by an identity without the
  admin role answers with rows that all have the caller as \<open>user_id\<close>, never a row of
  another identity; by an identity with the admin role it answers with every row of the
  table.
\<close>

theorem select_mt5_accounts_scoped:
  "(\<not> has_role (user_roles s) (Some u) admin \<longrightarrow>
      (\<exists>rows. select_mt5_accounts s (Some u) = Inr rows \<and> (\<forall>r\<in>set rows. user_id r = u))) \<and>
   (has_role (user_roles s) (Some u) admin \<longrightarrow>
      select_mt5_accounts s (Some u) = Inr (mt5_accounts s))"
  by (simp add: select_mt5_accounts_def rls_select_def)

text \<open>On the example store: alice is shown nothing, root both accounts.\<close>

theorem select_mt5_accounts_scoped_witness:
  "\<not> has_role (user_roles demo_store) (Some ''alice'') admin \<and>
   select_mt5_accounts demo_store (Some ''alice'') = Inr [] \<and>
   has_role (user_roles demo_store) (Some ''root'') admin \<and>
   select_mt5_accounts demo_store (Some ''root'') = Inr [acct_alice, acct_bob]"
proof -
  note na = demo_alice_not_admin and ad = demo_root_admin
  from na select_mt5_accounts_scoped [of demo_store "''alice''"]
  obtain rows where r: "select_mt5_accounts demo_store (Some ''alice'') = Inr rows"
    and own: "\<forall>r\<in>set rows. user_id r = ''alice''" by blast
  have "rows = []"
    using r na by (simp add: select_mt5_accounts_def rls_select_def)
  with r have "select_mt5_accounts demo_store (Some ''alice'') = Inr []" by simp
  moreover from ad select_mt5_accounts_scoped [of demo_store "''root''"]
  have "select_mt5_accounts demo_store (Some ''root'') = Inr (mt5_accounts demo_store)" by blast
  moreover have "mt5_accounts demo_store = [acct_alice, acct_bob]" by (simp add: demo_store_def)
  ultimately show ?thesis using na ad by simp
qed

subsection \<open>Updating Trading Accounts\<close>

text \<open>
  An UPDATE whose caller passes the USING expression of no row touches no row and
  answers without error.
\<close>

lemma rls_update_none_visible:
  "\<not> list_ex (using_ok ps FOR_UPDATE uid roles) rows \<Longrightarrow>
   rls_update ps uid roles rows matches f = Inr rows"
proof -
  assume h: "\<not> list_ex (using_ok ps FOR_UPDATE uid roles) rows"
  then have no: "\<And>r. r \<in> set rows \<Longrightarrow> \<not> update_target ps uid roles matches r"
    by (auto simp: list_ex_iff update_target_def)
  then have "map (\<lambda>r. if update_target ps uid roles matches r then f r else r) rows = rows"
    by (simp add: map_idI)
  moreover have "\<not> list_ex (\<lambda>r. update_target ps uid roles matches r \<and>
                          \<not> new_row_ok ps uid roles (f r)) rows"
    using no by (auto simp: list_ex_iff)
  ultimately show ?thesis by (simp add: rls_update_def)
qed

lemma rls_update_mt5_non_admin:
  "\<not> has_role roles uid admin \<Longrightarrow>
   rls_update mt5_accounts_policies uid roles rows matches f = Inr rows"
  by (rule rls_update_none_visible) (simp add: list_ex_iff)

lemma rls_update_mt5_admin:
  "has_role roles uid admin \<Longrightarrow>
   rls_update mt5_accounts_policies uid roles rows matches f =
     Inr (map (\<lambda>r. if matches r then f r else r) rows)"
  by (simp add: rls_update_def update_target_def new_row_ok_def list_ex_iff)

lemma updateMT5Account_non_admin:
  "\<not> has_role (user_roles s) uid admin \<Longrightarrow>
   updateMT5Account s uid acc updates =
     (case cast_updates updates of Inl e \<Rightarrow> Inl e | Inr u \<Rightarrow> Inr s)"
  by (simp add: updateMT5Account_def rls_update_mt5_non_admin split: sum.splits)

lemma updateMT5Account_admin:
  "has_role (user_roles s) uid admin \<Longrightarrow>
   updateMT5Account s uid acc updates =
     (case cast_updates updates of
        Inl e \<Rightarrow> Inl e
      | Inr u \<Rightarrow>
          Inr (s\<lparr>mt5_accounts :=
                   map (\<lambda>r. if row_id r = acc then apply_updates u r else r) (mt5_accounts s)\<rparr>))"
  by (simp add: updateMT5Account_def rls_update_mt5_admin split: sum.splits)

text \<open>Amounts with two decimals and fewer than nine digits before the point go through
  the conversion unchanged; the amounts of the examples are of this kind.\<close>

lemma numeric_10_2_cents:
  "\<bar>c\<bar> < 10 ^ 10 \<Longrightarrow> numeric_10_2 (of_int c / 100) = Inr (of_int c / 100)"
proof -
  assume c: "\<bar>c\<bar> < 10 ^ 10"
  have "round_half_away (of_int c / 100 * 100) = c"
  proof -
    have *: "(of_int c / 100 * 100 :: rat) = of_int c" by simp
    have "\<lfloor>(of_int c :: rat) + 1 / 2\<rfloor> = c" by linarith
    moreover have "\<lfloor>- (of_int c :: rat) + 1 / 2\<rfloor> = - c" by linarith
    ultimately show ?thesis unfolding * round_half_away_def by simp
  qed
  with c show ?thesis by (simp add: numeric_10_2_def)
qed

lemma numeric_10_2_examples:
  "numeric_10_2 1000 = Inr 1000" "numeric_10_2 2000 = Inr 2000" "numeric_10_2 5000 = Inr 5000"
  using numeric_10_2_cents [of 100000] numeric_10_2_cents [of 200000]
    numeric_10_2_cents [of 500000]
  by simp_all

lemma cast_updates_no_balance: "upd_current_balance u = None \<Longrightarrow> cast_updates u = Inr u"
  by (simp add: cast_updates_def)

lemma cast_balance_to_5000: "cast_updates balance_to_5000 = Inr balance_to_5000"
  by (simp add: cast_updates_def balance_to_5000_def numeric_10_2_examples)

text \<open>
  The claim C2 has an update of the three fields by a caller without the admin role
  rejected. alice, who does not hold the role, sends each of the admin screen's three
  updates for her own account: every one of them is answered as a success, and none has
  changed anything.
\<close>

theorem non_admin_update_not_refused_counterexample:
  "\<not> has_role (user_roles demo_store) (Some ''alice'') admin \<and>
   balance_onChange demo_parseFloat demo_store (Some ''alice'') ''acc-1'' ''2000'' = Inr demo_store \<and>
   profit_target_onChange demo_store (Some ''alice'') ''acc-1'' True = Inr demo_store \<and>
   commission_paid_onChange demo_store (Some ''alice'') ''acc-1'' True = Inr demo_store"
  using demo_alice_not_admin
  by (simp add: balance_onChange_def profit_target_onChange_def commission_paid_onChange_def
                updateMT5Account_non_admin cast_updates_def demo_parseFloat_def
                numeric_10_2_examples)

text \<open>
  C2, as the code has it. An update of Trading Accounts issued by a caller that does not
  hold the admin role never changes a row, whatever rows it addresses and whatever it
  would write to \<open>current_balance\<close>, \<open>profit_target_reached\<close> or
  \<open>commission_paid\<close>; the policy layer does not reject it with an authorization
  error but passes it over the rows it may not touch, so the request is answered as a
  success that changed nothing (or, when the balance does not fit the column, with the
  column's overflow error). The same request by a caller that holds the admin role is
  applied to the addressed account, with the balance as the column stores it, so only
  such a caller changes these fields.
\<close>

theorem non_admin_update_changes_nothing:
  "(\<not> has_role roles uid admin \<longrightarrow>
      rls_update mt5_accounts_policies uid roles rows matches f = Inr rows) \<and>
   (\<not> has_role (user_roles s) uid admin \<longrightarrow>
      updateMT5Account s uid acc updates =
        (case cast_updates updates of Inl e \<Rightarrow> Inl e | Inr u \<Rightarrow> Inr s)) \<and>
   (has_role (user_roles s) uid admin \<longrightarrow>
      updateMT5Account s uid acc updates =
        (case cast_updates updates of
           Inl e \<Rightarrow> Inl e
         | Inr u \<Rightarrow>
             Inr (s\<lparr>mt5_accounts :=
                      map (\<lambda>r. if row_id r = acc then apply_updates u r else r)
                        (mt5_accounts s)\<rparr>)))"
  using rls_update_mt5_non_admin updateMT5Account_non_admin updateMT5Account_admin by blast

text \<open>On the example store: the same request by alice and by root, and a balance that
  the column cannot hold.\<close>

theorem non_admin_update_changes_nothing_witness:
  "\<not> has_role (user_roles demo_store) (Some ''alice'') admin \<and>
   rls_update mt5_accounts_policies (Some ''alice'') (user_roles demo_store)
       [acct_alice, acct_bob] (\<lambda>r. True) (apply_updates balance_to_5000) =
     Inr [acct_alice, acct_bob] \<and>
   updateMT5Account demo_store (Some ''alice'') ''acc-1'' balance_to_5000 = Inr demo_store \<and>
   updateMT5Account demo_store (Some ''alice'') ''acc-1'' balance_too_large =
     Inl NumericOverflow \<and>
   has_role (user_roles demo_store) (Some ''root'') admin \<and>
   updateMT5Account demo_store (Some ''root'') ''acc-1'' balance_to_5000 =
     Inr (demo_store\<lparr>mt5_accounts :=
            [acct_alice\<lparr>current_balance := Some 5000, profit_target_reached := True,
                        commission_paid := True\<rparr>, acct_bob]\<rparr>)"
proof -
  note na = demo_alice_not_admin and ad = demo_root_admin
  note alice = non_admin_update_changes_nothing
                 [of "user_roles demo_store" "Some ''alice''" "[acct_alice, acct_bob]"
                     "\<lambda>r. True" "apply_updates balance_to_5000" demo_store "''acc-1''"]
  have big: "cast_updates balance_too_large = Inl NumericOverflow"
    by (simp add: cast_updates_def balance_too_large_def numeric_10_2_def round_half_away_def)
  have "rls_update mt5_accounts_policies (Some ''alice'') (user_roles demo_store)
          [acct_alice, acct_bob] (\<lambda>r. True) (apply_updates balance_to_5000) =
        Inr [acct_alice, acct_bob]"
    using na alice [of balance_to_5000] by blast
  moreover
  have "updateMT5Account demo_store (Some ''alice'') ''acc-1'' balance_to_5000 = Inr demo_store"
    using na alice [of balance_to_5000] by (simp add: cast_balance_to_5000)
  moreover
  have "updateMT5Account demo_store (Some ''alice'') ''acc-1'' balance_too_large =
          Inl NumericOverflow"
    using na alice [of balance_too_large] by (simp add: big)
  moreover have "updateMT5Account demo_store (Some ''root'') ''acc-1'' balance_to_5000 =
     Inr (demo_store\<lparr>mt5_accounts :=
            map (\<lambda>r. if row_id r = ''acc-1'' then apply_updates balance_to_5000 r else r)
              (mt5_accounts demo_store)\<rparr>)"
    using ad non_admin_update_changes_nothing
            [of "user_roles demo_store" "Some ''root''" "[]" "\<lambda>r. True" "\<lambda>r. r" demo_store
                "''acc-1''" balance_to_5000]
    by (simp add: cast_balance_to_5000)
  moreover have "map (\<lambda>r. if row_id r = ''acc-1'' then apply_updates balance_to_5000 r else r)
              (mt5_accounts demo_store) =
            [acct_alice\<lparr>current_balance := Some 5000, profit_target_reached := True,
                        commission_paid := True\<rparr>, acct_bob]"
    by (simp add: demo_store_def acct_alice_def acct_bob_def apply_updates_def balance_to_5000_def)
  ultimately show ?thesis using na ad by simp
qed

subsection \<open>Inserting Trading Accounts\<close>

text \<open>
  C5. An insert into \<open>mt5_accounts\<close> by an identity without the admin role is
  refused by the policy layer unless the new row's \<open>user_id\<close> is the caller's
  identity, and is let through when it is.
\<close>

theorem non_admin_insert_owner_only:
  "\<not> has_role roles (Some u) admin \<Longrightarrow>
   rls_insert mt5_accounts_policies (Some u) roles rows new =
     (if user_id new = u then Inr (rows @ [new]) else Inl RlsViolation)"
  by (auto simp: rls_insert_def)

text \<open>alice inserts her own account, and then one that names bob.\<close>

theorem non_admin_insert_owner_only_witness:
  "\<not> has_role (user_roles demo_store) (Some ''alice'') admin \<and>
   rls_insert mt5_accounts_policies (Some ''alice'') (user_roles demo_store) [acct_bob] acct_alice =
     Inr [acct_bob, acct_alice] \<and>
   rls_insert mt5_accounts_policies (Some ''alice'') (user_roles demo_store) [acct_alice] acct_mallory =
     Inl RlsViolation"
proof -
  note na = demo_alice_not_admin
  have "user_id acct_alice = ''alice''" "user_id acct_mallory \<noteq> ''alice''"
    by (simp_all add: acct_alice_def acct_mallory_def)
  then show ?thesis
    using na non_admin_insert_owner_only [OF na, of "[acct_bob]" acct_alice]
      non_admin_insert_owner_only [OF na, of "[acct_alice]" acct_mallory]
    by simp
qed

subsection \<open>How a denial reaches the caller\<close>

text \<open>
  The claim C3 asks for an authorization error on every denied operation. alice is
  denied both the SELECT and the UPDATE of her own account, and both requests answer
  without error: the first with the empty result set, the second with the table as it
  was.
\<close>

theorem denial_is_silent_counterexample:
  "acct_alice \<in> set (mt5_accounts demo_store) \<and>
   \<not> using_ok mt5_accounts_policies FOR_SELECT (Some ''alice'') (user_roles demo_store) acct_alice \<and>
   select_mt5_accounts demo_store (Some ''alice'') = Inr [] \<and>
   \<not> using_ok mt5_accounts_policies FOR_UPDATE (Some ''alice'') (user_roles demo_store) acct_alice \<and>
   updateMT5Account demo_store (Some ''alice'') ''acc-1'' balance_to_5000 = Inr demo_store"
  using demo_alice_not_admin
  by (simp add: select_mt5_accounts_non_admin_empty updateMT5Account_non_admin
                cast_balance_to_5000)
     (simp add: demo_store_def)

text \<open>
  C3, as the code has it. For any table and any list of policies: a denied INSERT
  answers with the authorization error; a SELECT that is denied every row answers with
  the empty result set and no error; an UPDATE that is denied every row answers without
  error and changes nothing.
\<close>

theorem denial_surface:
  "(\<not> check_ok ps FOR_INSERT uid roles new \<longrightarrow> rls_insert ps uid roles rows new = Inl RlsViolation) \<and>
   (\<not> list_ex (using_ok ps FOR_SELECT uid roles) rows \<longrightarrow> rls_select ps uid roles rows = Inr []) \<and>
   (\<not> list_ex (using_ok ps FOR_UPDATE uid roles) rows \<longrightarrow>
      rls_update ps uid roles rows matches f = Inr rows)"
proof -
  have "\<not> list_ex (using_ok ps FOR_SELECT uid roles) rows \<Longrightarrow>
        filter (using_ok ps FOR_SELECT uid roles) rows = []"
    by (simp add: list_ex_iff filter_empty_conv)
  then show ?thesis
    using rls_update_none_visible [of ps uid roles rows matches f]
    by (simp add: rls_insert_def rls_select_def)
qed

text \<open>The three cases for alice on \<open>mt5_accounts\<close>, and bob asking for alice's
  profile.\<close>

theorem denial_surface_witness:
  "rls_insert mt5_accounts_policies (Some ''alice'') (user_roles demo_store) [acct_alice] acct_mallory =
     Inl RlsViolation \<and>
   rls_select mt5_accounts_policies (Some ''alice'') (user_roles demo_store) [acct_alice, acct_bob] =
     Inr [] \<and>
   rls_update mt5_accounts_policies (Some ''alice'') (user_roles demo_store) [acct_alice, acct_bob]
       (\<lambda>r. row_id r = ''acc-1'') (apply_updates balance_to_5000) =
     Inr [acct_alice, acct_bob] \<and>
   rls_select profiles_policies (Some ''bob'') (user_roles demo_store)
       [\<lparr>profile_user_id = ''alice'', full_name = ''Alice'', telegram_handle = ''@alice''\<rparr>] =
     Inr []"
proof -
  note na = demo_alice_not_admin
  have 4: "\<not> list_ex (using_ok profiles_policies FOR_SELECT (Some ''bob'') (user_roles demo_store))
                [\<lparr>profile_user_id = ''alice'', full_name = ''Alice'', telegram_handle = ''@alice''\<rparr>]"
    by (simp add: using_ok_def profiles_policies_def applicable_def demo_store_def demo_roles_def)
  have 1: "\<not> check_ok mt5_accounts_policies FOR_INSERT (Some ''alice'') (user_roles demo_store) acct_mallory"
    using na by (simp add: acct_mallory_def)
  have 2: "\<not> list_ex (using_ok mt5_accounts_policies FOR_SELECT (Some ''alice'') (user_roles demo_store))
                [acct_alice, acct_bob]"
    using na by simp
  have 3: "\<not> list_ex (using_ok mt5_accounts_policies FOR_UPDATE (Some ''alice'') (user_roles demo_store))
                [acct_alice, acct_bob]"
    using na by simp
  show ?thesis
    using 1 2 3 4
      denial_surface [of profiles_policies "Some ''bob''" "user_roles demo_store"
                         "\<lparr>profile_user_id = ''alice'', full_name = ''Alice'', telegram_handle = ''@alice''\<rparr>"
                         "[\<lparr>profile_user_id = ''alice'', full_name = ''Alice'', telegram_handle = ''@alice''\<rparr>]"
                         "\<lambda>r. True" "\<lambda>r. r"]
      denial_surface [of mt5_accounts_policies "Some ''alice''" "user_roles demo_store" acct_mallory
                         "[acct_alice]" "\<lambda>r. row_id r = ''acc-1''" "apply_updates balance_to_5000"]
      denial_surface [of mt5_accounts_policies "Some ''alice''" "user_roles demo_store" acct_mallory
                         "[acct_alice, acct_bob]" "\<lambda>r. row_id r = ''acc-1''" "apply_updates balance_to_5000"]
    by blast
qed

subsection \<open>Registration\<close>

lemma fresh_identity_has_no_rows:
  assumes "references_ok s" and "u \<notin> set (auth_users s)"
  shows "\<not> list_ex (\<lambda>q. profile_user_id q = u) (profiles s)"
    and "\<not> list_ex (\<lambda>q. role_user_id q = u \<and> role q = r) (user_roles s)"
    and "profiles_of s u = []" and "roles_of s u = []"
  using assms
  by (auto simp: references_ok_def list_all_iff list_ex_iff profiles_of_def roles_of_def
                 filter_empty_conv)

lemma insert_auth_user_fresh:
  assumes "references_ok s" and "auth_id NEW \<notin> set (auth_users s)"
  shows "insert_auth_user s NEW =
           Inr (s\<lparr>auth_users := auth_users s @ [auth_id NEW],
                   profiles := profiles s @ [new_profile NEW],
                   user_roles := user_roles s @ [\<lparr>role_user_id = auth_id NEW, role = user\<rparr>]\<rparr>)"
  using fresh_identity_has_no_rows(1,2) [OF assms] assms(2)
  by (simp add: insert_auth_user_def handle_new_user_def insert_profile_def insert_user_role_def
                new_profile_def)

lemma insert_auth_user_Inr:
  assumes "insert_auth_user s NEW = Inr s'"
  shows "auth_id NEW \<in> set (auth_users s')"
    and "length (profiles_of s' (auth_id NEW)) = 1"
    and "\<lparr>role_user_id = auth_id NEW, role = user\<rparr> \<in> set (user_roles s')"
  using assms
  by (auto simp: insert_auth_user_def handle_new_user_def insert_profile_def insert_user_role_def
                 new_profile_def profiles_of_def list_ex_iff filter_empty_conv
           split: if_splits sum.splits)

text \<open>
  C4. The insert of a new identity runs the registration trigger once on it and, as one
  unit with the identity, adds exactly one profile, with \<open>full_name\<close> and
  \<open>telegram_handle\<close> taken from the metadata and each the empty string when
  missing, and exactly one role row, with role \<open>user\<close>. An identity that exists is
  refused, so the trigger runs once per identity. Whenever the insert succeeds the
  identity has its profile and its role (an error of the trigger body is an error of
  the insert and yields no store), and the identities that had both keep them.
\<close>

theorem registration_creates_profile_and_role:
  "(auth_id NEW \<in> set (auth_users s) \<longrightarrow> insert_auth_user s NEW = Inl UniqueViolation) \<and>
   (insert_auth_user s NEW = Inr s1 \<longrightarrow>
      auth_id NEW \<in> set (auth_users s1) \<and> length (profiles_of s1 (auth_id NEW)) = 1 \<and>
      \<lparr>role_user_id = auth_id NEW, role = user\<rparr> \<in> set (user_roles s1)) \<and>
   (references_ok s \<and> auth_id NEW \<notin> set (auth_users s) \<longrightarrow>
      (\<exists>s'. insert_auth_user s NEW = Inr s' \<and>
            auth_users s' = auth_users s @ [auth_id NEW] \<and>
            profiles_of s' (auth_id NEW) =
              [\<lparr>profile_user_id = auth_id NEW,
                full_name = COALESCE (json_text (raw_user_meta_data NEW) ''full_name'') [],
                telegram_handle =
                  COALESCE (json_text (raw_user_meta_data NEW) ''telegram_handle'') []\<rparr>] \<and>
            roles_of s' (auth_id NEW) = [\<lparr>role_user_id = auth_id NEW, role = user\<rparr>] \<and>
            references_ok s' \<and>
            (\<forall>u. identity_complete s u \<longrightarrow> identity_complete s' u) \<and>
            identity_complete s' (auth_id NEW)))"
proof (intro conjI impI)
  assume "auth_id NEW \<in> set (auth_users s)"
  then show "insert_auth_user s NEW = Inl UniqueViolation"
    by (simp add: insert_auth_user_def)
next
  assume r: "insert_auth_user s NEW = Inr s1"
  show "auth_id NEW \<in> set (auth_users s1)" by (rule insert_auth_user_Inr(1) [OF r])
  show "length (profiles_of s1 (auth_id NEW)) = 1" by (rule insert_auth_user_Inr(2) [OF r])
  show "\<lparr>role_user_id = auth_id NEW, role = user\<rparr> \<in> set (user_roles s1)"
    by (rule insert_auth_user_Inr(3) [OF r])
next
  assume h: "references_ok s \<and> auth_id NEW \<notin> set (auth_users s)"
  then have ok: "references_ok s" and fresh: "auth_id NEW \<notin> set (auth_users s)" by simp_all
  let ?s' = "s\<lparr>auth_users := auth_users s @ [auth_id NEW],
                 profiles := profiles s @ [new_profile NEW],
                 user_roles := user_roles s @ [\<lparr>role_user_id = auth_id NEW, role = user\<rparr>]\<rparr>"
  note none = fresh_identity_has_no_rows(3,4) [OF ok fresh]
  have 1: "insert_auth_user s NEW = Inr ?s'" by (rule insert_auth_user_fresh [OF ok fresh])
  have 2: "auth_users ?s' = auth_users s @ [auth_id NEW]" by simp
  have 3: "profiles_of ?s' (auth_id NEW) = [new_profile NEW]"
    using none(1) by (simp add: profiles_of_def new_profile_def)
  have 4: "roles_of ?s' (auth_id NEW) = [\<lparr>role_user_id = auth_id NEW, role = user\<rparr>]"
    using none(2) by (simp add: roles_of_def)
  have 5: "references_ok ?s'"
    using ok by (auto simp: references_ok_def list_all_iff new_profile_def)
  have 6: "identity_complete ?s' u" if "identity_complete s u" for u
  proof -
    from that have "u \<noteq> auth_id NEW"
      using none(1) by (auto simp: identity_complete_def)
    with that show ?thesis
      by (simp add: identity_complete_def profiles_of_def roles_of_def new_profile_def)
  qed
  have 7: "identity_complete ?s' (auth_id NEW)"
    using 3 4 by (simp add: identity_complete_def)
  from 1 2 3 4 5 6 7 show "\<exists>s'. insert_auth_user s NEW = Inr s' \<and>
            auth_users s' = auth_users s @ [auth_id NEW] \<and>
            profiles_of s' (auth_id NEW) =
              [\<lparr>profile_user_id = auth_id NEW,
                full_name = COALESCE (json_text (raw_user_meta_data NEW) ''full_name'') [],
                telegram_handle =
                  COALESCE (json_text (raw_user_meta_data NEW) ''telegram_handle'') []\<rparr>] \<and>
            roles_of s' (auth_id NEW) = [\<lparr>role_user_id = auth_id NEW, role = user\<rparr>] \<and>
            references_ok s' \<and>
            (\<forall>u. identity_complete s u \<longrightarrow> identity_complete s' u) \<and>
            identity_complete s' (auth_id NEW)"
    unfolding new_profile_def by blast
qed

lemma demo_store_references_ok: "references_ok demo_store"
  by (simp add: references_ok_def demo_store_def demo_roles_def)

text \<open>Jane registers on the example store, and cannot register twice; an identity
  without metadata gets the two empty strings.\<close>

theorem registration_creates_profile_and_role_witness:
  "references_ok demo_store \<and> auth_id jane \<notin> set (auth_users demo_store) \<and>
   auth_id nameless \<notin> set (auth_users demo_store) \<and>
   (\<exists>s'. insert_auth_user demo_store jane = Inr s' \<and>
         profiles_of s' ''jane'' =
           [\<lparr>profile_user_id = ''jane'', full_name = ''Jane'', telegram_handle = ''@jane''\<rparr>] \<and>
         roles_of s' ''jane'' = [\<lparr>role_user_id = ''jane'', role = user\<rparr>] \<and>
         insert_auth_user s' jane = Inl UniqueViolation) \<and>
   (\<exists>s'. insert_auth_user demo_store nameless = Inr s' \<and>
         profiles_of s' ''carol'' =
           [\<lparr>profile_user_id = ''carol'', full_name = [], telegram_handle = []\<rparr>] \<and>
         roles_of s' ''carol'' = [\<lparr>role_user_id = ''carol'', role = user\<rparr>])"
proof -
  note ok = demo_store_references_ok
  have fj: "auth_id jane \<notin> set (auth_users demo_store)"
    and fn: "auth_id nameless \<notin> set (auth_users demo_store)"
    by (simp_all add: jane_def nameless_def demo_store_def)
  from ok fj registration_creates_profile_and_role [of jane demo_store demo_store]
  obtain sj where j: "insert_auth_user demo_store jane = Inr sj"
    "auth_users sj = auth_users demo_store @ [auth_id jane]"
    "profiles_of sj (auth_id jane) =
       [\<lparr>profile_user_id = auth_id jane,
         full_name = COALESCE (json_text (raw_user_meta_data jane) ''full_name'') [],
         telegram_handle = COALESCE (json_text (raw_user_meta_data jane) ''telegram_handle'') []\<rparr>]"
    "roles_of sj (auth_id jane) = [\<lparr>role_user_id = auth_id jane, role = user\<rparr>]"
    by blast
  from j(2) have "auth_id jane \<in> set (auth_users sj)" by simp
  with registration_creates_profile_and_role [of jane sj sj]
  have again: "insert_auth_user sj jane = Inl UniqueViolation" by blast
  from ok fn registration_creates_profile_and_role [of nameless demo_store demo_store]
  obtain sn where n: "insert_auth_user demo_store nameless = Inr sn"
    "profiles_of sn (auth_id nameless) =
       [\<lparr>profile_user_id = auth_id nameless,
         full_name = COALESCE (json_text (raw_user_meta_data nameless) ''full_name'') [],
         telegram_handle = COALESCE (json_text (raw_user_meta_data nameless) ''telegram_handle'') []\<rparr>]"
    "roles_of sn (auth_id nameless) = [\<lparr>role_user_id = auth_id nameless, role = user\<rparr>]"
    by blast
  have "\<exists>s'. insert_auth_user demo_store jane = Inr s' \<and>
         profiles_of s' ''jane'' =
           [\<lparr>profile_user_id = ''jane'', full_name = ''Jane'', telegram_handle = ''@jane''\<rparr>] \<and>
         roles_of s' ''jane'' = [\<lparr>role_user_id = ''jane'', role = user\<rparr>] \<and>
         insert_auth_user s' jane = Inl UniqueViolation"
    using j(1,3,4) again by (intro exI [of _ sj]) (simp add: jane_def)
  moreover have "\<exists>s'. insert_auth_user demo_store nameless = Inr s' \<and>
         profiles_of s' ''carol'' =
           [\<lparr>profile_user_id = ''carol'', full_name = [], telegram_handle = []\<rparr>] \<and>
         roles_of s' ''carol'' = [\<lparr>role_user_id = ''carol'', role = user\<rparr>]"
    using n by (intro exI [of _ sn]) (simp add: nameless_def)
  ultimately show ?thesis using ok fj fn by blast
qed

subsection \<open>Submitting an account, and its badge\<close>




text \<open>
  The scenario as a sequence of operations on the example store: the badges of the three
  accounts of the table after root has set balance and target of the new account, and
  after root has marked its commission paid.
\<close>

lemma scenario_badges:
  "map account_badge (mt5_accounts (run demo_parseFloat demo_store scenario_due)) =
     [None, None, Some ''Commission Due'']"
  "map account_badge
     (mt5_accounts (run demo_parseFloat demo_store
        (scenario_due @ [CommissionPaidChange (Some ''root'') ''acc-9'' True]))) =
     [None, None, Some ''Commission Paid'']"
  by code_simp+




subsection \<open>Reading Platform Settings\<close>

lemma settings_using_select [simp]:
  "using_ok admin_settings_policies FOR_SELECT uid roles r"
  by (simp add: using_ok_def admin_settings_policies_def applicable_def)

text \<open>
  C9. Reading Platform Settings leaves the store as it was, so a second read with no
  write in between answers exactly as the first did; and the read is open to every
  caller, signed in or not: the policy layer answers it with every row of the table and
  never with an error.
\<close>

theorem settings_read_idempotent:
  "snd (Dashboard_fetch_settings s uid) = s \<and>
   Dashboard_fetch_settings (snd (Dashboard_fetch_settings s uid)) uid =
     Dashboard_fetch_settings s uid \<and>
   select_admin_settings (snd (select_admin_settings s uid)) uid = select_admin_settings s uid \<and>
   select_admin_settings s uid = (Inr (admin_settings s), s)"
  by (simp add: Dashboard_fetch_settings_def select_admin_settings_def rls_select_def)

text \<open>An anonymous caller reads the wallet address of the migration's row, twice.\<close>

theorem settings_read_idempotent_witness:
  "Dashboard_fetch_settings demo_store None = (Inr (Some ''TBD_USDT_ADDRESS''), demo_store) \<and>
   Dashboard_fetch_settings (snd (Dashboard_fetch_settings demo_store None)) None =
     (Inr (Some ''TBD_USDT_ADDRESS''), demo_store)"
proof -
  have "Dashboard_fetch_settings demo_store None = (Inr (Some ''TBD_USDT_ADDRESS''), demo_store)"
    using settings_read_idempotent [of demo_store None]
    by (simp add: Dashboard_fetch_settings_def demo_store_def demo_settings_def)
  then show ?thesis using settings_read_idempotent [of demo_store None] by simp
qed

subsection \<open>Rounding to the nearest double\<close>

text \<open>
  \<open>expo\<close> is the exponent of the leading bit; \<open>round_half_even\<close> is monotone, odd
  and the identity on the integers. From these: \<open>round64\<close> is monotone and odd and
  leaves the values of the format as they are, and so does \<open>binary64\<close>.
\<close>

lemma two_powi_pos [simp]: "0 < (2::rat) powi e"
  by simp

lemma two_powi_mono: "m \<le> n \<Longrightarrow> (2::rat) powi m \<le> 2 powi n"
  by (rule power_int_increasing) simp_all

lemma two_powi_less_D: "(2::rat) powi m < 2 powi n \<Longrightarrow> m < n"
  using two_powi_mono [of n m] by (cases "m < n") simp_all

lemma bitlen_powi:
  assumes "0 < a"
  shows "(2::rat) powi (bitlen a - 1) \<le> of_int a" and "of_int a < (2::rat) powi bitlen a"
proof -
  from assms have l: "1 \<le> bitlen a" by (auto simp: bitlen_alt_def)
  from bitlen_bounds [OF assms]
  have 1: "(2::int) ^ nat (bitlen a - 1) \<le> a" and 2: "a < 2 ^ nat (bitlen a)" by simp_all
  from 1 have "(of_int ((2::int) ^ nat (bitlen a - 1)) :: rat) \<le> of_int a"
    by (simp only: of_int_le_iff)
  with l show "(2::rat) powi (bitlen a - 1) \<le> of_int a"
    by (simp add: power_int_nonneg_exp)
  from 2 have "(of_int a :: rat) < of_int ((2::int) ^ nat (bitlen a))"
    by (simp only: of_int_less_iff)
  with l show "of_int a < (2::rat) powi bitlen a"
    by (simp add: power_int_nonneg_exp)
qed

lemma expo_bounds:
  assumes "x \<noteq> 0"
  shows "2 powi expo x \<le> \<bar>x\<bar>" and "\<bar>x\<bar> < 2 powi (expo x + 1)"
proof -
  obtain a b where q: "quotient_of \<bar>x\<bar> = (a, b)" by (cases "quotient_of \<bar>x\<bar>")
  then have b: "0 < b" and x: "\<bar>x\<bar> = of_int a / of_int b"
    by (auto dest: quotient_of_denom_pos quotient_of_div)
  from assms have "0 < \<bar>x\<bar>" by simp
  with x b have a: "0 < a" by (simp add: zero_less_divide_iff)
  define e0 where "e0 = bitlen a - bitlen b"
  have pb: "(0::rat) < of_int b" using b by simp
  have lo: "2 powi (e0 - 1) \<le> \<bar>x\<bar>"
  proof -
    have "e0 - 1 = bitlen a - 1 - bitlen b" by (simp add: e0_def)
    then have "(2::rat) powi (e0 - 1) = 2 powi (bitlen a - 1 - bitlen b)" by (rule arg_cong)
    also have "\<dots> = 2 powi (bitlen a - 1) / 2 powi bitlen b"
      by (rule power_int_diff) simp
    finally have "(2::rat) powi (e0 - 1) = 2 powi (bitlen a - 1) / 2 powi bitlen b" .
    also have "\<dots> \<le> of_int a / 2 powi bitlen b"
      using bitlen_powi(1) [OF a] by (simp add: divide_right_mono)
    also have "\<dots> \<le> of_int a / of_int b"
      using bitlen_powi(2) [OF b] a pb by (intro divide_left_mono) (simp_all add: less_imp_le)
    finally show ?thesis by (simp add: x)
  qed
  have hi: "\<bar>x\<bar> < 2 powi (e0 + 1)"
  proof -
    have "of_int a / of_int b < (2::rat) powi bitlen a / of_int b"
      using bitlen_powi(2) [OF a] pb by (simp add: divide_strict_right_mono)
    also have "\<dots> \<le> 2 powi bitlen a / 2 powi (bitlen b - 1)"
      using bitlen_powi(1) [OF b] pb by (intro divide_left_mono) simp_all
    also have "\<dots> = 2 powi (bitlen a - (bitlen b - 1))"
      by (rule power_int_diff [symmetric]) simp
    also have "bitlen a - (bitlen b - 1) = e0 + 1"
      by (simp add: e0_def)
    finally show ?thesis by (simp add: x)
  qed
  have e: "expo x = (if 2 powi e0 \<le> \<bar>x\<bar> then e0 else e0 - 1)"
    by (simp add: expo_def q e0_def Let_def)
  show "2 powi expo x \<le> \<bar>x\<bar>" using lo by (simp add: e)
  show "\<bar>x\<bar> < 2 powi (expo x + 1)" using hi by (auto simp: e)
qed

lemma expo_eqI:
  assumes "2 powi e \<le> \<bar>x\<bar>" and "\<bar>x\<bar> < 2 powi (e + 1)"
  shows "expo x = e"
proof -
  have "(0::rat) < 2 powi e" by simp
  with assms(1) have "0 < \<bar>x\<bar>" by linarith
  then have nz: "x \<noteq> 0" by auto
  note b = expo_bounds [OF nz]
  have "(2::rat) powi e < 2 powi (expo x + 1)" using assms(1) b(2) by simp
  then have 1: "e < expo x + 1" by (rule two_powi_less_D)
  have "(2::rat) powi expo x < 2 powi (e + 1)" using assms(2) b(1) by simp
  then have 2: "expo x < e + 1" by (rule two_powi_less_D)
  from 1 2 show ?thesis by simp
qed

lemma round_half_even_of_int [simp]: "round_half_even (of_int n) = n"
  by (simp add: round_half_even_def)

lemma round_half_even_mono: "x \<le> y \<Longrightarrow> round_half_even x \<le> round_half_even y"
proof -
  assume xy: "x \<le> y"
  have bx: "\<lfloor>x\<rfloor> \<le> round_half_even x" "round_half_even x \<le> \<lfloor>x\<rfloor> + 1" for x
    by (auto simp: round_half_even_def Let_def)
  show ?thesis
  proof (cases "\<lfloor>x\<rfloor> = \<lfloor>y\<rfloor>")
    case True
    with xy have "x - of_int \<lfloor>x\<rfloor> \<le> y - of_int \<lfloor>y\<rfloor>" by simp
    with True show ?thesis by (auto simp: round_half_even_def Let_def)
  next
    case False
    with xy have "\<lfloor>x\<rfloor> < \<lfloor>y\<rfloor>" using floor_mono [OF xy] by simp
    with bx(2) [of x] bx(1) [of y] show ?thesis by simp
  qed
qed

lemma round_half_even_ge: "of_int n \<le> y \<Longrightarrow> n \<le> round_half_even y"
  using round_half_even_mono [of "of_int n" y] by simp

lemma round_half_even_le: "y \<le> of_int n \<Longrightarrow> round_half_even y \<le> n"
  using round_half_even_mono [of y "of_int n"] by simp


lemma floor_minus_frac:
  fixes y :: rat
  assumes "y \<noteq> of_int \<lfloor>y\<rfloor>"
  shows "\<lfloor>- y\<rfloor> = - \<lfloor>y\<rfloor> - 1"
proof (rule floor_unique)
  have "of_int \<lfloor>y\<rfloor> < y"
    by (rule order.not_eq_order_implies_strict) (use assms in auto)
  have lt1: "y < of_int \<lfloor>y\<rfloor> + 1" by linarith
  then show "of_int (- \<lfloor>y\<rfloor> - 1) \<le> - y" by simp
  show "- y < of_int (- \<lfloor>y\<rfloor> - 1) + 1" using \<open>of_int \<lfloor>y\<rfloor> < y\<close>
    by simp
qed

lemma round_half_even_minus: "round_half_even (- y) = - round_half_even y"
proof (cases "y = of_int \<lfloor>y\<rfloor>")
  case True
  then obtain n where n: "y = of_int n" ..
  then have "- y = of_int (- n)" by simp
  then have "round_half_even (- y) = - n" by (simp only: round_half_even_of_int)
  with n show ?thesis by simp
next
  case False
  note f = floor_minus_frac [OF False]
  define d where "d = y - of_int \<lfloor>y\<rfloor>"
  have "of_int \<lfloor>y\<rfloor> < y"
    by (rule order.not_eq_order_implies_strict) (use False in auto)
  then have d: "0 < d" "d < 1"
    unfolding d_def by linarith+
  have d': "- y - of_int (- \<lfloor>y\<rfloor> - 1) = 1 - d" by (simp add: d_def)
  have e: "even (- \<lfloor>y\<rfloor> - 1) \<longleftrightarrow> odd \<lfloor>y\<rfloor>" by simp
  consider "d < 1 / 2" | "d = 1 / 2" | "1 / 2 < d" by linarith
  then show ?thesis
  proof cases
    case 1
    then show ?thesis
      unfolding round_half_even_def Let_def f d' d_def [symmetric] by simp
  next
    case 2
    then show ?thesis
      unfolding round_half_even_def Let_def f d' d_def [symmetric] e by simp
  next
    case 3
    then show ?thesis
      unfolding round_half_even_def Let_def f d' d_def [symmetric] by simp
  qed
qed

lemma powi_shift:
  "(2::rat) ^ 52 * 2 powi (k - 52) = 2 powi k"
  "(2::rat) ^ 53 * 2 powi (k - 52) = 2 powi (k + 1)"
proof -
  have "(2::rat) powi 52 * 2 powi (k - 52) = 2 powi (52 + (k - 52))"
    by (rule power_int_add [symmetric]) simp
  then show "(2::rat) ^ 52 * 2 powi (k - 52) = 2 powi k" by simp
  have "(2::rat) powi 53 * 2 powi (k - 52) = 2 powi (53 + (k - 52))"
    by (rule power_int_add [symmetric]) simp
  moreover have "53 + (k - 52) = k + 1" by simp
  ultimately show "(2::rat) ^ 53 * 2 powi (k - 52) = 2 powi (k + 1)" by simp
qed

lemma ulp_pos [simp]: "0 < ulp x"
  by (simp add: ulp_def)

lemma expo_minus [simp]: "expo (- x) = expo x"
  by (simp add: expo_def)

lemma ulp_minus [simp]: "ulp (- x) = ulp x"
  by (simp add: ulp_def)

lemma round64_minus: "round64 (- x) = - round64 x"
  by (simp add: round64_def round_half_even_minus)

lemma round64_0 [simp]: "round64 0 = 0"
  by (simp add: round64_def)


lemma ulp_shift:
  "(2::rat) ^ 52 * ulp x = 2 powi (max (expo x) (- 1022))"
  "(2::rat) ^ 53 * ulp x = 2 powi (max (expo x) (- 1022) + 1)"
  unfolding ulp_def by (rule powi_shift)+

lemma ulp_nonneg [simp]: "0 \<le> ulp x"
  by (rule less_imp_le) simp

lemma ulp_shift_normal:
  "- 1022 \<le> expo x \<Longrightarrow> (2::rat) ^ 52 * ulp x = 2 powi expo x"
  by (simp only: ulp_shift max_absorb1)

lemma scaled_less:
  assumes "x \<noteq> 0"
  shows "\<bar>x\<bar> / ulp x < 2 ^ 53"
proof -
  have "\<bar>x\<bar> < 2 powi (expo x + 1)" by (rule expo_bounds(2) [OF assms])
  also have "\<dots> \<le> 2 powi (max (expo x) (- 1022) + 1)" by (rule two_powi_mono) simp
  also have "\<dots> = 2 ^ 53 * ulp x" by (rule ulp_shift(2) [symmetric])
  finally show ?thesis by (simp add: pos_divide_less_eq)
qed

lemma scaled_ge:
  assumes "x \<noteq> 0" and "- 1022 \<le> expo x"
  shows "2 ^ 52 \<le> \<bar>x\<bar> / ulp x"
proof -
  have "(2::rat) ^ 52 * ulp x = 2 powi expo x"
    using assms(2) by (rule ulp_shift_normal)
  also have "\<dots> \<le> \<bar>x\<bar>" by (rule expo_bounds(1) [OF assms(1)])
  finally show ?thesis by (simp add: pos_le_divide_eq)
qed

lemma round64_pos_bounds:
  assumes "0 < x"
  shows "round64 x \<le> 2 powi (max (expo x) (- 1022) + 1)"
    and "- 1022 \<le> expo x \<Longrightarrow> 2 powi expo x \<le> round64 x"
    and "0 \<le> round64 x"
proof -
  from assms have nz: "x \<noteq> 0" and ax: "\<bar>x\<bar> = x" by simp_all
  have r: "round64 x = of_int (round_half_even (x / ulp x)) * ulp x"
    using nz by (simp add: round64_def)
  have "x / ulp x \<le> of_int (2 ^ 53)" using scaled_less [OF nz] by (simp add: ax)
  then have "round_half_even (x / ulp x) \<le> 2 ^ 53" by (rule round_half_even_le)
  then have "(of_int (round_half_even (x / ulp x)) :: rat) \<le> of_int (2 ^ 53)"
    by (simp only: of_int_le_iff)
  then have "round64 x \<le> 2 ^ 53 * ulp x"
    unfolding r by (intro mult_right_mono) simp_all
  then show "round64 x \<le> 2 powi (max (expo x) (- 1022) + 1)" by (simp only: ulp_shift)
  have "of_int 0 \<le> x / ulp x" using assms by simp
  then have "0 \<le> round_half_even (x / ulp x)" by (rule round_half_even_ge)
  then show "0 \<le> round64 x" unfolding r by simp
  assume n: "- 1022 \<le> expo x"
  have "of_int (2 ^ 52) \<le> x / ulp x" using scaled_ge [OF nz n] by (simp add: ax)
  then have "2 ^ 52 \<le> round_half_even (x / ulp x)" by (rule round_half_even_ge)
  then have "(of_int (2 ^ 52) :: rat) \<le> of_int (round_half_even (x / ulp x))"
    by (simp only: of_int_le_iff)
  then have "2 ^ 52 * ulp x \<le> round64 x"
    unfolding r by (intro mult_right_mono) simp_all
  then show "2 powi expo x \<le> round64 x" by (simp only: ulp_shift_normal [OF n])
qed

lemma expo_mono:
  assumes "0 < x" and "x \<le> y"
  shows "expo x \<le> expo y"
proof -
  from assms have "x \<noteq> 0" "y \<noteq> 0" "\<bar>x\<bar> = x" "\<bar>y\<bar> = y" by simp_all
  with expo_bounds(1) [of x] expo_bounds(2) [of y] assms(2)
  have "(2::rat) powi expo x < 2 powi (expo y + 1)" by simp
  then have "expo x < expo y + 1" by (rule two_powi_less_D)
  then show ?thesis by simp
qed

lemma round64_mono_pos:
  assumes "0 < x" and "x \<le> y"
  shows "round64 x \<le> round64 y"
proof -
  from assms have y: "0 < y" by simp
  let ?ex = "max (expo x) (- 1022)" and ?ey = "max (expo y) (- 1022)"
  have le: "?ex \<le> ?ey" using expo_mono [OF assms] by simp
  show ?thesis
  proof (cases "?ex = ?ey")
    case True
    then have u: "ulp x = ulp y" by (simp add: ulp_def)
    have "x / ulp y \<le> y / ulp y" using assms(2) by (rule divide_right_mono) simp
    then have "round_half_even (x / ulp y) \<le> round_half_even (y / ulp y)"
      by (rule round_half_even_mono)
    then have "(of_int (round_half_even (x / ulp y)) :: rat) \<le> of_int (round_half_even (y / ulp y))"
      by (simp only: of_int_le_iff)
    then have "of_int (round_half_even (x / ulp y)) * ulp y \<le>
               of_int (round_half_even (y / ulp y)) * ulp y"
      by (intro mult_right_mono) simp_all
    with assms(1) y show ?thesis by (simp add: round64_def u)
  next
    case False
    have lt: "?ex < ?ey" by (rule order.not_eq_order_implies_strict [OF False le])
    have n: "- 1022 \<le> expo y"
    proof (rule ccontr)
      assume "\<not> - 1022 \<le> expo y"
      then have "?ey = - 1022" by simp
      with lt show False by simp
    qed
    then have ey: "?ey = expo y" by simp
    have "round64 x \<le> 2 powi (?ex + 1)" by (rule round64_pos_bounds(1) [OF assms(1)])
    also have "\<dots> \<le> 2 powi expo y" using lt ey by (intro two_powi_mono) linarith
    also have "\<dots> \<le> round64 y" by (rule round64_pos_bounds(2) [OF y n])
    finally show ?thesis .
  qed
qed

lemma round64_mono:
  assumes "x \<le> y"
  shows "round64 x \<le> round64 y"
proof -
  have nonneg: "0 \<le> round64 z" if "0 \<le> z" for z
    using that round64_pos_bounds(3) [of z] by (cases "z = 0") simp_all
  have nonpos: "round64 z \<le> 0" if "z \<le> 0" for z
    using nonneg [of "- z"] that by (simp add: round64_minus)
  consider "0 < x" | "x \<le> 0" "0 \<le> y" | "y < 0" by linarith
  then show ?thesis
  proof cases
    case 1
    then show ?thesis using assms by (rule round64_mono_pos)
  next
    case 2
    then show ?thesis using nonneg [of y] nonpos [of x] by simp
  next
    case 3
    with assms have "0 < - y" "- y \<le> - x" by simp_all
    then have "round64 (- y) \<le> round64 (- x)" by (rule round64_mono_pos)
    then show ?thesis by (simp add: round64_minus)
  qed
qed


lemma round64_on_grid:
  assumes "ulp (of_int n * u) = u" and "0 < u"
  shows "round64 (of_int n * u) = of_int n * u"
proof (cases "n = 0")
  case True
  then show ?thesis by simp
next
  case False
  with assms(2) have nz: "of_int n * u \<noteq> 0" by simp
  have "of_int n * u / u = of_int n" using assms(2) by simp
  then show ?thesis using nz by (simp add: round64_def assms(1))
qed

lemma round64_grid_pos:
  assumes k: "- 1022 \<le> k" and n0: "0 < n" and n: "n \<le> 2 ^ 53"
    and c: "2 ^ 52 \<le> n \<or> k = - 1022"
  shows "round64 (of_int n * 2 powi (k - 52)) = of_int n * 2 powi (k - 52)"
proof -
  let ?u = "(2::rat) powi (k - 52)"
  let ?r = "of_int n * ?u"
  have r0: "0 < ?r" using n0 by simp
  then have ar: "\<bar>?r\<bar> = ?r" by simp
  have hi: "?r \<le> 2 powi (k + 1)"
  proof -
    from n have "(of_int n :: rat) \<le> of_int (2 ^ 53)" by (simp only: of_int_le_iff)
    then have "?r \<le> 2 ^ 53 * ?u" by (intro mult_right_mono) simp_all
    then show ?thesis by (simp only: powi_shift)
  qed
  show ?thesis
  proof (cases "n = 2 ^ 53")
    case True
    then have r: "?r = 2 powi (k + 1)" by (simp only: of_int_numeral of_int_power powi_shift)
    have "(2::rat) powi (k + 1) < 2 powi (k + 1 + 1)"
      by (rule power_int_strict_increasing) simp_all
    then have "expo ?r = k + 1" unfolding r by (intro expo_eqI) simp_all
    then have "max (expo ?r) (- 1022) = k + 1" using k by simp
    then have u: "ulp ?r = 2 powi (k + 1 - 52)" by (simp only: ulp_def)
    have "?r = of_int (2 ^ 52) * 2 powi (k + 1 - 52)"
      unfolding r by (simp only: of_int_numeral of_int_power powi_shift)
    moreover have "round64 (of_int (2 ^ 52) * 2 powi (k + 1 - 52)) =
                   of_int (2 ^ 52) * 2 powi (k + 1 - 52)"
      by (rule round64_on_grid) (use u \<open>?r = of_int (2 ^ 52) * 2 powi (k + 1 - 52)\<close> in simp_all)
    ultimately show ?thesis by simp
  next
    case False
    with n have lt: "n < 2 ^ 53" by simp
    have rlt: "?r < 2 powi (k + 1)"
    proof -
      from lt have "(of_int n :: rat) < of_int (2 ^ 53)" by (simp only: of_int_less_iff)
      then have "?r < 2 ^ 53 * ?u" by (intro mult_strict_right_mono) simp_all
      then show ?thesis by (simp only: powi_shift)
    qed
    have "max (expo ?r) (- 1022) = k"
    proof (cases "2 ^ 52 \<le> n")
      case True
      then have "(of_int (2 ^ 52) :: rat) \<le> of_int n" by (simp only: of_int_le_iff)
      then have "2 ^ 52 * ?u \<le> ?r" by (intro mult_right_mono) simp_all
      then have "2 powi k \<le> ?r" by (simp only: powi_shift)
      with rlt have "expo ?r = k" by (intro expo_eqI) (simp_all only: ar)
      with k show ?thesis by simp
    next
      case False
      with c have k': "k = - 1022" by simp
      from False have "(of_int n :: rat) < of_int (2 ^ 52)" by (simp only: of_int_less_iff not_le)
      then have "?r < 2 ^ 52 * ?u" by (intro mult_strict_right_mono) simp_all
      then have "?r < 2 powi k" by (simp only: powi_shift)
      moreover have "2 powi expo ?r \<le> ?r"
        using expo_bounds(1) [of ?r] r0 by (simp only: ar)
      ultimately have "(2::rat) powi expo ?r < 2 powi k" by simp
      then have "expo ?r < k" by (rule two_powi_less_D)
      with k' show ?thesis by simp
    qed
    then have "ulp ?r = ?u" by (simp only: ulp_def)
    then show ?thesis by (rule round64_on_grid) simp
  qed
qed

lemma round64_idem: "round64 (round64 x) = round64 x"
proof -
  have pos: "round64 (round64 x) = round64 x" if "0 < x" for x
  proof -
    from that have nz: "x \<noteq> 0" and ax: "\<bar>x\<bar> = x" by simp_all
    define k where "k = max (expo x) (- 1022)"
    define n where "n = round_half_even (x / ulp x)"
    have u: "ulp x = 2 powi (k - 52)" by (simp add: ulp_def k_def)
    have r: "round64 x = of_int n * 2 powi (k - 52)"
      using nz by (simp add: round64_def n_def u)
    have k: "- 1022 \<le> k" by (simp add: k_def)
    have "x / ulp x \<le> of_int (2 ^ 53)" using scaled_less [OF nz] by (simp add: ax)
    then have n: "n \<le> 2 ^ 53" unfolding n_def by (rule round_half_even_le)
    have "of_int 0 \<le> x / ulp x" using that by simp
    then have n0: "0 \<le> n" unfolding n_def by (rule round_half_even_ge)
    have c: "2 ^ 52 \<le> n \<or> k = - 1022"
    proof (cases "- 1022 \<le> expo x")
      case True
      have "of_int (2 ^ 52) \<le> x / ulp x" using scaled_ge [OF nz True] by (simp add: ax)
      then have "2 ^ 52 \<le> n" unfolding n_def by (rule round_half_even_ge)
      then show ?thesis ..
    next
      case False
      then have "k = - 1022" by (simp add: k_def)
      then show ?thesis ..
    qed
    show ?thesis
    proof (cases "n = 0")
      case True
      then show ?thesis by (simp add: r)
    next
      case False
      with n0 have "0 < n" by simp
      then show ?thesis unfolding r using k n c by (intro round64_grid_pos)
    qed
  qed
  consider "0 < x" | "x = 0" | "0 < - x" by linarith
  then show ?thesis
  proof cases
    case 1 then show ?thesis by (rule pos)
  next
    case 2 then show ?thesis by simp
  next
    case 3
    then have "round64 (round64 (- x)) = round64 (- x)" by (rule pos)
    then show ?thesis by (simp add: round64_minus)
  qed
qed

lemma binary64_0 [simp]: "binary64 0 = Num 0"
  by (simp add: binary64_def)

lemma binary64_Num_D:
  assumes "binary64 x = Num r"
  shows "r = round64 x" and "r < 2 ^ 1024" and "- (2 ^ 1024) < r"
  using assms by (auto simp: binary64_def Let_def split: if_splits)

lemma is_double_binary64: "is_double (binary64 x)"
proof (cases "binary64 x")
  case (Num r)
  note d = binary64_Num_D [OF Num]
  have "round64 r = r" unfolding d(1) by (rule round64_idem)
  with d(2,3) have "binary64 r = Num r" by (simp add: binary64_def)
  with Num show ?thesis by simp
qed simp_all

lemma is_double_add: "is_double (add_number x y)"
  by (cases x; cases y) (simp_all add: is_double_binary64)

lemma add_number_zero: "is_double x \<Longrightarrow> add_number x (Num 0) = x"
  by (cases x) simp_all

lemma round64_nonneg: "0 \<le> x \<Longrightarrow> 0 \<le> round64 x"
  using round64_mono [of 0 x] by simp

lemma round64_nonpos: "x \<le> 0 \<Longrightarrow> round64 x \<le> 0"
  using round64_mono [of x 0] by simp

lemma binary64_nonneg: "0 \<le> x \<Longrightarrow> nonneg_number (binary64 x)"
  using round64_nonneg [of x] by (simp add: binary64_def Let_def)

lemma binary64_nonpos_max: "x \<le> 0 \<Longrightarrow> max_number (Num 0) (binary64 x) = Num 0"
  using round64_nonpos [of x] by (simp add: binary64_def Let_def)

lemma nonneg_add: "nonneg_number x \<Longrightarrow> nonneg_number y \<Longrightarrow> nonneg_number (add_number x y)"
  by (cases x; cases y) (simp_all add: binary64_nonneg)

lemma round64_two_powi_1023: "round64 (2 powi 1023) = 2 powi 1023"
proof -
  have "round64 (of_int (2 ^ 52) * 2 powi (1023 - 52)) = of_int (2 ^ 52) * 2 powi (1023 - 52)"
    by (rule round64_grid_pos) simp_all
  moreover have "(of_int (2 ^ 52) :: rat) * 2 powi (1023 - 52) = 2 powi 1023"
    by (simp only: of_int_numeral of_int_power powi_shift)
  ultimately show ?thesis by simp
qed

lemma binary64_finite:
  assumes "\<bar>x\<bar> \<le> 2 powi 1023"
  shows "binary64 x = Num (round64 x)"
proof -
  from assms have "x \<le> 2 powi 1023" "- (2 powi 1023) \<le> x" by linarith+
  then have "round64 x \<le> round64 (2 powi 1023)" "round64 (- (2 powi 1023)) \<le> round64 x"
    by (auto intro: round64_mono)
  then have b: "round64 x \<le> 2 powi 1023" "- (2 powi 1023) \<le> round64 x"
    unfolding round64_minus round64_two_powi_1023 .
  have "(2::rat) powi 1023 < 2 powi 1024" by (rule power_int_strict_increasing) simp_all
  then have "(2::rat) powi 1023 < 2 ^ 1024" by (simp only: power_int_numeral)
  with b have "\<not> 2 ^ 1024 \<le> round64 x" "\<not> round64 x \<le> - (2 ^ 1024)" by linarith+
  then show ?thesis unfolding binary64_def Let_def by (simp only: if_False)
qed

subsection \<open>Total Profit\<close>

lemma binary64_not_NaN [simp]: "binary64 x \<noteq> NaN"
  by (simp add: binary64_def Let_def)

lemma number_or_zero_eq: "number_or_zero v = binary64 (or_zero v)"
  by (cases v) simp_all

lemma stored_amount_bound:
  assumes "stored_amount v"
  shows "\<bar>or_zero v\<bar> \<le> 2 powi 1023"
proof (cases v)
  case None
  then show ?thesis by simp
next
  case (Some x)
  define c where "c = round_half_away (x * 100)"
  from assms Some have x: "x = of_int c / 100" and c: "\<bar>c\<bar> < 10 ^ 10"
    by (auto simp: stored_amount_def numeric_10_2_def Let_def c_def split: if_splits sum.splits)
  from c have "(of_int \<bar>c\<bar> :: rat) < of_int (10 ^ 10)" by (simp only: of_int_less_iff)
  then have "\<bar>x\<bar> < 10 ^ 8" by (simp add: x)
  also have "(10::rat) ^ 8 \<le> 2 powi 27" by simp
  also have "(2::rat) powi 27 \<le> 2 powi 1023" by (rule two_powi_mono) simp
  finally show ?thesis using Some by simp
qed

lemma stored_amount_finite:
  "stored_amount v \<Longrightarrow> number_or_zero v = Num (round64 (or_zero v))"
  unfolding number_or_zero_eq by (rule binary64_finite) (rule stored_amount_bound)

lemma sub_number_Num: "sub_number (Num a) (Num b) = binary64 (a - b)"
  by (simp add: sub_number_def)

lemma max_zero_binary64_nonneg: "nonneg_number (max_number (Num 0) (binary64 y))"
  by (cases "binary64 y") simp_all

lemma account_gain_nonneg: "stored_amounts a \<Longrightarrow> nonneg_number (account_gain a)"
  by (simp add: account_gain_def stored_amounts_def stored_amount_finite sub_number_Num
                max_zero_binary64_nonneg)

lemma account_gain_losing:
  assumes "stored_amounts a" and "or_zero (current_balance a) \<le> or_zero (initial_deposit a)"
  shows "account_gain a = Num 0"
proof -
  from assms(2)
  have "round64 (or_zero (current_balance a)) - round64 (or_zero (initial_deposit a)) \<le> 0"
    using round64_mono [of "or_zero (current_balance a)" "or_zero (initial_deposit a)"] by simp
  then show ?thesis
    using assms(1)
    by (simp add: account_gain_def stored_amounts_def stored_amount_finite sub_number_Num
                  binary64_nonpos_max)
qed

lemma foldl_gains:
  "foldl (\<lambda>sum a. let profit = sub_number (number_or_zero (current_balance a))
                                           (number_or_zero (initial_deposit a))
                   in add_number sum (max_number (Num 0) profit)) start accts =
   foldl (\<lambda>sum a. add_number sum (account_gain a)) start accts"
  by (simp add: account_gain_def Let_def)

lemma totalProfit_foldl:
  "totalProfit accts = foldl (\<lambda>sum a. add_number sum (account_gain a)) (Num 0) accts"
  unfolding totalProfit_def foldl_gains ..

lemma totalProfit_snoc:
  "totalProfit (accts @ [a]) = add_number (totalProfit accts) (account_gain a)"
  by (simp add: totalProfit_foldl)

lemma totalProfit_is_double: "is_double (totalProfit accts)"
  by (induction accts rule: rev_induct) (simp_all add: totalProfit_foldl is_double_add)

lemma totalProfit_nonneg: "list_all stored_amounts accts \<Longrightarrow> nonneg_number (totalProfit accts)"
  by (induction accts rule: rev_induct)
     (simp_all add: totalProfit_foldl nonneg_add account_gain_nonneg)

lemma totalProfit_without:
  assumes "account_gain a = Num 0"
  shows "totalProfit (xs @ a # ys) = totalProfit (xs @ ys)"
proof -
  have "add_number (totalProfit xs) (Num 0) = totalProfit xs"
    by (rule add_number_zero) (rule totalProfit_is_double)
  then show ?thesis by (simp add: totalProfit_foldl assms)
qed

text \<open>The doubles of the examples, from the exponent of each and the rounded
  quotient by the spacing there.\<close>

lemma binary64_eval:
  assumes "2 powi e \<le> \<bar>x\<bar>" and "\<bar>x\<bar> < 2 powi (e + 1)" and "- 1022 \<le> e" and "e \<le> 1022"
  shows "binary64 x = Num (of_int (round_half_even (x / 2 powi (e - 52))) * 2 powi (e - 52))"
proof -
  have e: "expo x = e" using assms(1,2) by (rule expo_eqI)
  have "(0::rat) < 2 powi e" by simp
  with assms(1) have "0 < \<bar>x\<bar>" by linarith
  then have nz: "x \<noteq> 0" by auto
  have u: "ulp x = 2 powi (e - 52)" using assms(3) by (simp add: ulp_def e)
  have "(2::rat) powi (e + 1) \<le> 2 powi 1023" using assms(4) by (intro two_powi_mono) simp
  with assms(2) have "\<bar>x\<bar> \<le> 2 powi 1023" by linarith
  then have "binary64 x = Num (round64 x)" by (rule binary64_finite)
  then show ?thesis using nz by (simp add: round64_def u)
qed

lemma round_half_even_eval:
  "of_int n - 1 / 2 < y \<Longrightarrow> y < of_int n + 1 / 2 \<Longrightarrow> round_half_even y = n"
proof -
  assume a: "of_int n - 1 / 2 < y" "y < of_int n + 1 / 2"
  consider "of_int n \<le> y" | "y < of_int n" by linarith
  then show ?thesis
  proof cases
    case 1
    with a have "\<lfloor>y\<rfloor> = n" by (intro floor_unique) simp_all
    with a show ?thesis by (simp add: round_half_even_def Let_def)
  next
    case 2
    with a have f: "\<lfloor>y\<rfloor> = n - 1" by (intro floor_unique) simp_all
    with a 2 show ?thesis by (simp add: round_half_even_def Let_def)
  qed
qed

lemma binary64_three_tenths: "binary64 (3 / 10) = Num (5404319552844595 / 18014398509481984)"
proof -
  have r: "round_half_even (3 / 10 / 2 powi (- 2 - 52)) = 5404319552844595"
    by (rule round_half_even_eval) simp_all
  have "binary64 (3 / 10) =
          Num (of_int (round_half_even (3 / 10 / 2 powi (- 2 - 52))) * 2 powi (- 2 - 52))"
    by (rule binary64_eval) simp_all
  also have "\<dots> = Num (5404319552844595 / 18014398509481984)"
    unfolding r by simp
  finally show ?thesis .
qed

lemma binary64_one_tenth: "binary64 (1 / 10) = Num (3602879701896397 / 36028797018963968)"
proof -
  have r: "round_half_even (1 / 10 / 2 powi (- 4 - 52)) = 7205759403792794"
    by (rule round_half_even_eval) simp_all
  have "binary64 (1 / 10) =
          Num (of_int (round_half_even (1 / 10 / 2 powi (- 4 - 52))) * 2 powi (- 4 - 52))"
    by (rule binary64_eval) simp_all
  also have "\<dots> = Num (3602879701896397 / 36028797018963968)"
    unfolding r by simp
  finally show ?thesis .
qed

lemma binary64_difference:
  "binary64 (5404319552844595 / 18014398509481984 - 3602879701896397 / 36028797018963968) =
   Num (7205759403792793 / 36028797018963968)"
proof -
  have r: "round_half_even ((5404319552844595 / 18014398509481984 - 3602879701896397 / 36028797018963968) / 2 powi (- 3 - 52)) = 7205759403792793"
    by (rule round_half_even_eval) simp_all
  have "binary64 (5404319552844595 / 18014398509481984 - 3602879701896397 / 36028797018963968) =
          Num (of_int (round_half_even ((5404319552844595 / 18014398509481984 - 3602879701896397 / 36028797018963968) / 2 powi (- 3 - 52))) * 2 powi (- 3 - 52))"
    by (rule binary64_eval) simp_all
  also have "\<dots> = Num (7205759403792793 / 36028797018963968)"
    unfolding r by simp
  finally show ?thesis .
qed

lemma binary64_1000: "binary64 1000 = Num 1000"
proof -
  have r: "round_half_even (1000 / 2 powi (9 - 52)) = 8796093022208000"
    by (rule round_half_even_eval) simp_all
  have "binary64 1000 =
          Num (of_int (round_half_even (1000 / 2 powi (9 - 52))) * 2 powi (9 - 52))"
    by (rule binary64_eval) simp_all
  also have "\<dots> = Num 1000"
    unfolding r by simp
  finally show ?thesis .
qed

lemma binary64_2000: "binary64 2000 = Num 2000"
proof -
  have r: "round_half_even (2000 / 2 powi (10 - 52)) = 8796093022208000"
    by (rule round_half_even_eval) simp_all
  have "binary64 2000 =
          Num (of_int (round_half_even (2000 / 2 powi (10 - 52))) * 2 powi (10 - 52))"
    by (rule binary64_eval) simp_all
  also have "\<dots> = Num 2000"
    unfolding r by simp
  finally show ?thesis .
qed

lemma zero_add_number: "is_double y \<Longrightarrow> add_number (Num 0) y = y"
  by (cases y) simp_all

lemma is_double_max_zero: "is_double y \<Longrightarrow> is_double (max_number (Num 0) y)"
  by (cases y) (auto simp: max_def)

lemma account_gain_is_double: "is_double (account_gain a)"
  by (simp add: account_gain_def sub_number_def is_double_max_zero is_double_add)

lemma totalProfit_single: "totalProfit [a] = account_gain a"
  by (simp add: totalProfit_foldl zero_add_number account_gain_is_double)

lemma account_gain_cents:
  "account_gain acct_cents = Num (7205759403792793 / 36028797018963968)"
proof -
  have "account_gain acct_cents =
          max_number (Num 0) (sub_number (binary64 (3 / 10)) (binary64 (1 / 10)))"
    by (simp add: account_gain_def acct_cents_def acct_alice_def)
  also have "\<dots> = max_number (Num 0) (Num (7205759403792793 / 36028797018963968))"
    unfolding binary64_three_tenths binary64_one_tenth sub_number_Num binary64_difference ..
  also have "\<dots> = Num (7205759403792793 / 36028797018963968)"
    by simp
  finally show ?thesis .
qed

lemma account_gain_alice_2000:
  "account_gain (acct_alice\<lparr>current_balance := Some 2000\<rparr>) = Num 1000"
proof -
  have "account_gain (acct_alice\<lparr>current_balance := Some 2000\<rparr>) =
          max_number (Num 0) (sub_number (binary64 2000) (binary64 1000))"
    by (simp add: account_gain_def acct_alice_def)
  also have "\<dots> = max_number (Num 0) (binary64 (2000 - 1000))"
    unfolding binary64_2000 binary64_1000 sub_number_Num ..
  also have "\<dots> = Num 1000"
    by (simp add: binary64_1000)
  finally show ?thesis .
qed

lemma stored_amounts_demo:
  "stored_amounts acct_cents" "stored_amounts (acct_alice\<lparr>current_balance := Some 2000\<rparr>)"
  "stored_amounts acct_bob"
  by code_simp+

text \<open>
  The claim C10 has the Total Profit equal to the sum of the gains. One account with a
  deposit of 0.10 and a balance of 0.30, both amounts as the column holds them, has a
  gain of 0.20; the Dashboard computes 0.19999999999999998, the double next below.
\<close>

theorem totalProfit_exact_sum_counterexample:
  "stored_amounts acct_cents \<and>
   max 0 (or_zero (current_balance acct_cents) - or_zero (initial_deposit acct_cents)) = 1 / 5 \<and>
   totalProfit [acct_cents] = Num (7205759403792793 / 36028797018963968) \<and>
   (7205759403792793 / 36028797018963968 :: rat) < 1 / 5"
proof (intro conjI)
  show "stored_amounts acct_cents" by (rule stored_amounts_demo)
  show "max 0 (or_zero (current_balance acct_cents) - or_zero (initial_deposit acct_cents)) = 1 / 5"
    by (simp add: acct_cents_def acct_alice_def)
  show "totalProfit [acct_cents] = Num (7205759403792793 / 36028797018963968)"
    by (simp only: totalProfit_single account_gain_cents)
  show "(7205759403792793 / 36028797018963968 :: rat) < 1 / 5" by simp
qed

text \<open>
  C10, as the code has it. The Total Profit of the Dashboard is the sum, taken from 0 in
  the order of the list, of the gains \<open>max(0, current_balance - initial_deposit)\<close> of
  the fetched accounts in double-precision arithmetic: an amount is read as the nearest
  double, a missing one as 0, and every difference and every sum is rounded to the
  nearest double, so the result need not be the exact sum. For accounts with amounts as
  the columns hold them the Total Profit is never negative and never NaN, and an account
  whose balance is not above its deposit has the gain 0 and adds nothing wherever it
  stands in the list: the total with it is the total without it.
\<close>

theorem totalProfit_rounded_sum:
  "totalProfit [] = Num 0 \<and>
   totalProfit (accts @ [a]) = add_number (totalProfit accts) (account_gain a) \<and>
   (list_all stored_amounts accts \<longrightarrow> nonneg_number (totalProfit accts)) \<and>
   (stored_amounts a \<and> or_zero (current_balance a) \<le> or_zero (initial_deposit a) \<longrightarrow>
      account_gain a = Num 0 \<and> totalProfit (xs @ a # ys) = totalProfit (xs @ ys))"
proof (intro conjI impI)
  show "totalProfit [] = Num 0" by (simp add: totalProfit_def)
  show "totalProfit (accts @ [a]) = add_number (totalProfit accts) (account_gain a)"
    by (rule totalProfit_snoc)
  show "nonneg_number (totalProfit accts)" if "list_all stored_amounts accts"
    using that by (rule totalProfit_nonneg)
  assume l: "stored_amounts a \<and> or_zero (current_balance a) \<le> or_zero (initial_deposit a)"
  then show g: "account_gain a = Num 0" by (intro account_gain_losing) simp_all
  then show "totalProfit (xs @ a # ys) = totalProfit (xs @ ys)" by (rule totalProfit_without)
qed

text \<open>alice's account at a balance of 2000 gains 1000; bob's, 100 under its deposit,
  adds nothing.\<close>

theorem totalProfit_rounded_sum_witness:
  "list_all stored_amounts [acct_alice\<lparr>current_balance := Some 2000\<rparr>, acct_bob] \<and>
   or_zero (current_balance acct_bob) \<le> or_zero (initial_deposit acct_bob) \<and>
   account_gain acct_bob = Num 0 \<and>
   totalProfit [acct_alice\<lparr>current_balance := Some 2000\<rparr>, acct_bob] = Num 1000 \<and>
   nonneg_number (totalProfit [acct_alice\<lparr>current_balance := Some 2000\<rparr>, acct_bob])"
proof -
  let ?a = "acct_alice\<lparr>current_balance := Some 2000\<rparr>"
  have st: "list_all stored_amounts [?a, acct_bob]" by (simp add: stored_amounts_demo)
  then have sb: "stored_amounts acct_bob" by simp
  have loss: "or_zero (current_balance acct_bob) \<le> or_zero (initial_deposit acct_bob)"
    by (simp add: acct_bob_def)
  have one: "totalProfit [?a] = Num 1000"
    by (simp only: totalProfit_single account_gain_alice_2000)
  note inst = totalProfit_rounded_sum [of "[?a, acct_bob]" acct_bob "[?a]" "[]"]
  from sb loss inst have "account_gain acct_bob = Num 0"
    and "totalProfit ([?a] @ acct_bob # []) = totalProfit ([?a] @ [])" by blast+
  moreover from st inst have "nonneg_number (totalProfit [?a, acct_bob])" by blast
  ultimately show ?thesis using st loss one by simp
qed

subsection \<open>What each operation does to the accounts\<close>

lemma step_SignUp:
  "mt5_accounts (step pf s (SignUp new_id fullName handle)) = mt5_accounts s"
  by (auto simp: step_def signUp_def insert_auth_user_def handle_new_user_def
                 insert_profile_def insert_user_role_def
           split: sum.splits if_splits)

lemma step_SubmitAccount:
  "mt5_accounts (step pf s (SubmitAccount usr fresh fd)) = mt5_accounts s \<or>
   (\<exists>row. mt5_accounts (step pf s (SubmitAccount usr fresh fd)) = mt5_accounts s @ [row] \<and>
          row_id row = fresh \<and> \<not> list_ex (\<lambda>r. row_id r = fresh) (mt5_accounts s) \<and>
          \<not> profit_target_reached row \<and> \<not> commission_paid row)"
  by (auto simp: step_def handleSubmit_def insert_mt5_account_def cast_insert_def rls_insert_def
                 new_mt5_row_def
           split: sum.splits if_splits option.splits)

text \<open>The balance that a change of the balance field stores on a row, if the column
  takes it.\<close>

lemma step_BalanceChange:
  "mt5_accounts (step pf s (BalanceChange uid acc text)) =
     map (\<lambda>r. if has_role (user_roles s) uid admin \<and> row_id r = acc
              then (case numeric_10_2 (or_zero (pf text)) of
                      Inl e \<Rightarrow> r
                    | Inr v \<Rightarrow> r\<lparr>current_balance := Some v\<rparr>)
              else r) (mt5_accounts s)"
  by (cases "has_role (user_roles s) uid admin")
     (simp_all add: step_def balance_onChange_def updateMT5Account_non_admin
                    updateMT5Account_admin cast_updates_def apply_updates_def map_idI
               split: sum.splits)

lemma step_ProfitTargetChange:
  "mt5_accounts (step pf s (ProfitTargetChange uid acc checked)) =
     (if has_role (user_roles s) uid admin
      then map (\<lambda>r. if row_id r = acc then r\<lparr>profit_target_reached := checked\<rparr> else r)
             (mt5_accounts s)
      else mt5_accounts s)"
  by (cases "has_role (user_roles s) uid admin")
     (simp_all add: step_def profit_target_onChange_def updateMT5Account_non_admin updateMT5Account_admin
                    cast_updates_def apply_updates_def)

lemma step_CommissionPaidChange:
  "mt5_accounts (step pf s (CommissionPaidChange uid acc checked)) =
     (if has_role (user_roles s) uid admin
      then map (\<lambda>r. if row_id r = acc then r\<lparr>commission_paid := checked\<rparr> else r)
             (mt5_accounts s)
      else mt5_accounts s)"
  by (cases "has_role (user_roles s) uid admin")
     (simp_all add: step_def commission_paid_onChange_def updateMT5Account_non_admin updateMT5Account_admin
                    cast_updates_def apply_updates_def)

subsection \<open>profit_target_reached\<close>

lemma target_latched_map:
  assumes "target_latched s acc" and "mt5_accounts s' = map g (mt5_accounts s)"
    and "\<And>r. row_id (g r) = row_id r"
    and "\<And>r. row_id r = acc \<Longrightarrow> profit_target_reached r \<Longrightarrow> profit_target_reached (g r)"
  shows "target_latched s' acc"
proof -
  from assms(1) obtain r where r: "r \<in> set (mt5_accounts s)" "row_id r = acc"
    by (auto simp: target_latched_def list_ex_iff)
  from assms(1) have all: "\<And>x. x \<in> set (mt5_accounts s) \<Longrightarrow> row_id x = acc \<Longrightarrow> profit_target_reached x"
    by (auto simp: target_latched_def list_all_iff)
  have "g r \<in> set (mt5_accounts s')" "row_id (g r) = acc"
    using r assms(2,3) by simp_all
  then have ex: "list_ex (\<lambda>r. row_id r = acc) (mt5_accounts s')"
    by (auto simp: list_ex_iff)
  have "profit_target_reached y" if "y \<in> set (mt5_accounts s')" "row_id y = acc" for y
  proof -
    from that(1) assms(2) obtain x where x: "x \<in> set (mt5_accounts s)" "y = g x" by auto
    with that(2) assms(3) have "row_id x = acc" by simp
    with x all assms(4) show ?thesis by simp
  qed
  with ex show ?thesis by (simp add: target_latched_def list_all_iff)
qed

lemma step_keeps_latch:
  assumes "target_latched s acc" and "\<not> resets s acc ev"
  shows "target_latched (step pf s ev) acc"
proof (cases ev)
  case (SignUp i f h)
  with assms show ?thesis by (simp add: target_latched_def step_SignUp)
next
  case (SubmitAccount usr fresh fd)
  from step_SubmitAccount [of pf s usr fresh fd] show ?thesis
  proof
    assume "mt5_accounts (step pf s (SubmitAccount usr fresh fd)) = mt5_accounts s"
    with assms(1) SubmitAccount show ?thesis by (simp add: target_latched_def)
  next
    assume "\<exists>row. mt5_accounts (step pf s (SubmitAccount usr fresh fd)) = mt5_accounts s @ [row] \<and>
          row_id row = fresh \<and> \<not> list_ex (\<lambda>r. row_id r = fresh) (mt5_accounts s) \<and>
          \<not> profit_target_reached row \<and> \<not> commission_paid row"
    then obtain row where row:
      "mt5_accounts (step pf s (SubmitAccount usr fresh fd)) = mt5_accounts s @ [row]"
      "row_id row = fresh" "\<not> list_ex (\<lambda>r. row_id r = fresh) (mt5_accounts s)"
      by blast
    from assms(1) row(3) have "fresh \<noteq> acc"
      by (auto simp: target_latched_def list_ex_iff)
    with assms(1) row(1,2) SubmitAccount show ?thesis
      by (simp add: target_latched_def)
  qed
next
  case (BalanceChange uid a t)
  show ?thesis
  proof (rule target_latched_map [OF assms(1)])
    show "mt5_accounts (step pf s ev) =
            map (\<lambda>r. if has_role (user_roles s) uid admin \<and> row_id r = a
                     then (case numeric_10_2 (or_zero (pf t)) of
                             Inl e \<Rightarrow> r
                           | Inr v \<Rightarrow> r\<lparr>current_balance := Some v\<rparr>)
                     else r) (mt5_accounts s)"
      by (simp add: BalanceChange step_BalanceChange)
  qed (simp_all split: sum.splits)
next
  case (ProfitTargetChange uid a b)
  show ?thesis
  proof (rule target_latched_map [OF assms(1)])
    show "mt5_accounts (step pf s ev) =
            map (\<lambda>r. if has_role (user_roles s) uid admin \<and> row_id r = a
                     then r\<lparr>profit_target_reached := b\<rparr> else r) (mt5_accounts s)"
      by (simp add: ProfitTargetChange step_ProfitTargetChange)
  next
    fix r :: mt5_account
    assume "row_id r = acc" "profit_target_reached r"
    with assms(2) ProfitTargetChange
    show "profit_target_reached
            (if has_role (user_roles s) uid admin \<and> row_id r = a
             then r\<lparr>profit_target_reached := b\<rparr> else r)"
      by auto
  qed simp
next
  case (CommissionPaidChange uid a b)
  show ?thesis
  proof (rule target_latched_map [OF assms(1)])
    show "mt5_accounts (step pf s ev) =
            map (\<lambda>r. if has_role (user_roles s) uid admin \<and> row_id r = a
                     then r\<lparr>commission_paid := b\<rparr> else r) (mt5_accounts s)"
      by (simp add: CommissionPaidChange step_CommissionPaidChange)
  qed simp_all
qed

lemma run_keeps_latch:
  "target_latched s acc \<Longrightarrow> no_reset pf s acc evs \<Longrightarrow> target_latched (run pf s evs) acc"
  by (induction evs arbitrary: s) (simp_all add: step_keeps_latch)

lemma step_resets_latch:
  assumes "target_latched s acc" and "resets s acc ev"
  shows "\<not> target_latched (step pf s ev) acc"
proof -
  from assms(2) obtain uid where ev: "ev = ProfitTargetChange uid acc False"
    and adm: "has_role (user_roles s) uid admin"
    by (cases ev) auto
  from assms(1) obtain r where r: "r \<in> set (mt5_accounts s)" "row_id r = acc"
    by (auto simp: target_latched_def list_ex_iff)
  let ?r' = "r\<lparr>profit_target_reached := False\<rparr>"
  have "mt5_accounts (step pf s ev) =
          map (\<lambda>r. if row_id r = acc then r\<lparr>profit_target_reached := False\<rparr> else r)
            (mt5_accounts s)"
    using adm by (simp add: ev step_ProfitTargetChange)
  with r have "?r' \<in> set (mt5_accounts (step pf s ev))" by force
  moreover have "row_id ?r' = acc \<and> \<not> profit_target_reached ?r'" using r(2) by simp
  ultimately show ?thesis
    unfolding target_latched_def list_all_iff by blast
qed

text \<open>
  The claim C7 has the flag stay once it is set, in every sequence of operations. On the
  example store root checks "Profit Target Reached" on alice's account and then
  un-checks it: the flag is set after the first operation and clear after the second.
\<close>

theorem latch_reset_counterexample:
  "map profit_target_reached
     (mt5_accounts (run demo_parseFloat demo_store
        [ProfitTargetChange (Some ''root'') ''acc-1'' True])) = [True, False] \<and>
   map profit_target_reached
     (mt5_accounts (run demo_parseFloat demo_store
        [ProfitTargetChange (Some ''root'') ''acc-1'' True,
         ProfitTargetChange (Some ''root'') ''acc-1'' False])) = [False, False]"
  by code_simp

text \<open>
  C7, as the code has it. Once \<open>profit_target_reached\<close> of an account is set it stays
  set through every sequence of sign-ups, account submissions, balance changes,
  commission changes and target changes, by any callers, as long as no caller that holds
  the admin role un-checks "Profit Target Reached" on that account; that one operation
  clears it.
\<close>

theorem latch_holds_until_admin_unchecks:
  "(target_latched s acc \<and> no_reset pf s acc evs \<longrightarrow> target_latched (run pf s evs) acc) \<and>
   (target_latched s acc \<and> resets s acc ev \<longrightarrow> \<not> target_latched (step pf s ev) acc)"
  using run_keeps_latch step_resets_latch by blast

theorem latch_holds_until_admin_unchecks_witness:
  "target_latched demo_latched ''acc-1'' \<and>
   no_reset demo_parseFloat demo_latched ''acc-1'' demo_events \<and>
   target_latched (run demo_parseFloat demo_latched demo_events) ''acc-1'' \<and>
   resets demo_latched ''acc-1'' (ProfitTargetChange (Some ''root'') ''acc-1'' False) \<and>
   \<not> target_latched
       (step demo_parseFloat demo_latched (ProfitTargetChange (Some ''root'') ''acc-1'' False))
       ''acc-1''"
proof -
  have l: "target_latched demo_latched ''acc-1''" by code_simp
  have n: "no_reset demo_parseFloat demo_latched ''acc-1'' demo_events" by code_simp
  have r: "resets demo_latched ''acc-1'' (ProfitTargetChange (Some ''root'') ''acc-1'' False)"
    by code_simp
  from l n r
    latch_holds_until_admin_unchecks
      [of demo_latched "''acc-1''" demo_parseFloat demo_events
          "ProfitTargetChange (Some ''root'') ''acc-1'' False"]
  show ?thesis by blast
qed

subsection \<open>commission_paid and profit_target_reached\<close>

lemma commission_rule_map:
  assumes "commission_rule s" and "mt5_accounts s' = map g (mt5_accounts s)"
    and "\<And>r. r \<in> set (mt5_accounts s) \<Longrightarrow> commission_paid r \<longrightarrow> profit_target_reached r \<Longrightarrow>
             commission_paid (g r) \<longrightarrow> profit_target_reached (g r)"
  shows "commission_rule s'"
  using assms by (auto simp: commission_rule_def list_all_iff)

lemma step_keeps_rule:
  assumes "commission_rule s" and "\<not> breaks_rule s ev"
  shows "commission_rule (step pf s ev)"
proof (cases ev)
  case (SignUp i f h)
  with assms show ?thesis by (simp add: commission_rule_def step_SignUp)
next
  case (SubmitAccount usr fresh fd)
  with assms(1) step_SubmitAccount [of pf s usr fresh fd] show ?thesis
    by (auto simp: commission_rule_def)
next
  case (BalanceChange uid a t)
  show ?thesis
  proof (rule commission_rule_map [OF assms(1)])
    show "mt5_accounts (step pf s ev) =
            map (\<lambda>r. if has_role (user_roles s) uid admin \<and> row_id r = a
                     then (case numeric_10_2 (or_zero (pf t)) of
                             Inl e \<Rightarrow> r
                           | Inr v \<Rightarrow> r\<lparr>current_balance := Some v\<rparr>)
                     else r) (mt5_accounts s)"
      by (simp add: BalanceChange step_BalanceChange)
  qed (simp split: sum.splits)
next
  case (ProfitTargetChange uid a b)
  show ?thesis
  proof (rule commission_rule_map [OF assms(1)])
    show "mt5_accounts (step pf s ev) =
            map (\<lambda>r. if has_role (user_roles s) uid admin \<and> row_id r = a
                     then r\<lparr>profit_target_reached := b\<rparr> else r) (mt5_accounts s)"
      by (simp add: ProfitTargetChange step_ProfitTargetChange)
  next
    fix r :: mt5_account
    assume "r \<in> set (mt5_accounts s)" "commission_paid r \<longrightarrow> profit_target_reached r"
    with assms(2) ProfitTargetChange
    show "commission_paid (if has_role (user_roles s) uid admin \<and> row_id r = a
                           then r\<lparr>profit_target_reached := b\<rparr> else r) \<longrightarrow>
          profit_target_reached (if has_role (user_roles s) uid admin \<and> row_id r = a
                                 then r\<lparr>profit_target_reached := b\<rparr> else r)"
      by (auto simp: list_ex_iff)
  qed
next
  case (CommissionPaidChange uid a b)
  show ?thesis
  proof (rule commission_rule_map [OF assms(1)])
    show "mt5_accounts (step pf s ev) =
            map (\<lambda>r. if has_role (user_roles s) uid admin \<and> row_id r = a
                     then r\<lparr>commission_paid := b\<rparr> else r) (mt5_accounts s)"
      by (simp add: CommissionPaidChange step_CommissionPaidChange)
  next
    fix r :: mt5_account
    assume "r \<in> set (mt5_accounts s)" "commission_paid r \<longrightarrow> profit_target_reached r"
    with assms(2) CommissionPaidChange
    show "commission_paid (if has_role (user_roles s) uid admin \<and> row_id r = a
                           then r\<lparr>commission_paid := b\<rparr> else r) \<longrightarrow>
          profit_target_reached (if has_role (user_roles s) uid admin \<and> row_id r = a
                                 then r\<lparr>commission_paid := b\<rparr> else r)"
      by (auto simp: list_ex_iff)
  qed
qed

lemma run_keeps_rule:
  "commission_rule s \<Longrightarrow> keeps_rule pf s evs \<Longrightarrow> commission_rule (run pf s evs)"
  by (induction evs arbitrary: s) (simp_all add: step_keeps_rule)

lemma step_breaks_rule:
  assumes "breaks_rule s ev"
  shows "\<not> commission_rule (step pf s ev)"
proof (cases ev)
  case (ProfitTargetChange uid a b)
  with assms have adm: "has_role (user_roles s) uid admin" and b: "\<not> b" by simp_all
  from assms ProfitTargetChange obtain r
    where r: "r \<in> set (mt5_accounts s)" "row_id r = a" "commission_paid r"
    by (auto simp: list_ex_iff)
  let ?r' = "r\<lparr>profit_target_reached := False\<rparr>"
  have "mt5_accounts (step pf s ev) =
          map (\<lambda>r. if row_id r = a then r\<lparr>profit_target_reached := False\<rparr> else r)
            (mt5_accounts s)"
    using adm b by (simp add: ProfitTargetChange step_ProfitTargetChange)
  with r(1,2) have "?r' \<in> set (mt5_accounts (step pf s ev))" by force
  moreover have "commission_paid ?r' \<and> \<not> profit_target_reached ?r'" using r(3) by simp
  ultimately show ?thesis unfolding commission_rule_def list_all_iff by blast
next
  case (CommissionPaidChange uid a b)
  with assms have adm: "has_role (user_roles s) uid admin" and b: "b" by simp_all
  from assms CommissionPaidChange obtain r
    where r: "r \<in> set (mt5_accounts s)" "row_id r = a" "\<not> profit_target_reached r"
    by (auto simp: list_ex_iff)
  let ?r' = "r\<lparr>commission_paid := True\<rparr>"
  have "mt5_accounts (step pf s ev) =
          map (\<lambda>r. if row_id r = a then r\<lparr>commission_paid := True\<rparr> else r) (mt5_accounts s)"
    using adm b by (simp add: CommissionPaidChange step_CommissionPaidChange)
  with r(1,2) have "?r' \<in> set (mt5_accounts (step pf s ev))" by force
  moreover have "commission_paid ?r' \<and> \<not> profit_target_reached ?r'" using r(3) by simp
  ultimately show ?thesis unfolding commission_rule_def list_all_iff by blast
qed (use assms in simp_all)

text \<open>
  The claim C8 has every sequence of operations keep \<open>commission_paid\<close> within
  \<open>profit_target_reached\<close>. On the example store, where the rule holds, alice submits
  an account and root checks "Commission Paid" on it: the new account then has its
  commission paid and its target not reached.
\<close>

theorem commission_rule_counterexample:
  "commission_rule demo_store \<and>
   map profit_target_reached
     (mt5_accounts (run demo_parseFloat demo_store
        [SubmitAccount (Some ''alice'') ''acc-9'' form_123,
         CommissionPaidChange (Some ''root'') ''acc-9'' True])) = [False, False, False] \<and>
   map commission_paid
     (mt5_accounts (run demo_parseFloat demo_store
        [SubmitAccount (Some ''alice'') ''acc-9'' form_123,
         CommissionPaidChange (Some ''root'') ''acc-9'' True])) = [False, False, True] \<and>
   \<not> commission_rule
       (run demo_parseFloat demo_store
          [SubmitAccount (Some ''alice'') ''acc-9'' form_123,
           CommissionPaidChange (Some ''root'') ''acc-9'' True])"
  by code_simp

text \<open>
  C8, as the code has it. No check constraint, trigger or screen logic ties the two
  flags. The rule that \<open>commission_paid\<close> is only set on an account whose
  \<open>profit_target_reached\<close> is set holds of every newly submitted account and is kept
  by every sequence of operations that stays clear of two updates by a caller that holds
  the admin role: checking "Commission Paid" on an account whose target is not reached,
  and un-checking "Profit Target Reached" on an account whose commission is paid. Each
  of these two leads out of the rule.
\<close>

theorem commission_rule_kept_unless_admin_breaks:
  "(commission_rule s \<and> keeps_rule pf s evs \<longrightarrow> commission_rule (run pf s evs)) \<and>
   (breaks_rule s ev \<longrightarrow> \<not> commission_rule (step pf s ev))"
  using run_keeps_rule step_breaks_rule by blast

theorem commission_rule_kept_unless_admin_breaks_witness:
  "commission_rule demo_latched \<and> keeps_rule demo_parseFloat demo_latched demo_events \<and>
   commission_rule (run demo_parseFloat demo_latched demo_events) \<and>
   breaks_rule demo_latched (CommissionPaidChange (Some ''root'') ''acc-2'' True) \<and>
   \<not> commission_rule
       (step demo_parseFloat demo_latched (CommissionPaidChange (Some ''root'') ''acc-2'' True))"
proof -
  have c: "commission_rule demo_latched" by code_simp
  have k: "keeps_rule demo_parseFloat demo_latched demo_events" by code_simp
  have b: "breaks_rule demo_latched (CommissionPaidChange (Some ''root'') ''acc-2'' True)"
    by code_simp
  from c k b
    commission_rule_kept_unless_admin_breaks
      [of demo_latched demo_parseFloat demo_events
          "CommissionPaidChange (Some ''root'') ''acc-2'' True"]
  show ?thesis by blast
qed

end
